theory Spec2Isabelle
  imports Complex_Main "HOL-Library.Word" "HOL-Library.AList" "HOL-Library.Sublist"
begin

section \<open>JavaScript numbers\<close>

text \<open>
  The handlers receive numbers through \<^verbatim>\<open>Number(...)\<close> applied to query parameters and to
  JSON fields, so a number may be \<^verbatim>\<open>NaN\<close> or infinite. Only comparison, \<^verbatim>\<open>Math.min\<close>,
  \<^verbatim>\<open>Math.max\<close> and truncation are applied to such values, so a finite value is kept as the
  rational it denotes.
\<close>

datatype jsnum = NaN | NegInf | Finite rat | PosInf

fun js_lt :: "jsnum \<Rightarrow> jsnum \<Rightarrow> bool" where
  "js_lt NaN _ = False"
| "js_lt _ NaN = False"
| "js_lt _ NegInf = False"
| "js_lt PosInf _ = False"
| "js_lt NegInf _ = True"
| "js_lt (Finite a) (Finite b) = (a < b)"
| "js_lt (Finite a) PosInf = True"

fun js_le :: "jsnum \<Rightarrow> jsnum \<Rightarrow> bool" where
  "js_le NaN _ = False"
| "js_le _ NaN = False"
| "js_le NegInf _ = True"
| "js_le _ PosInf = True"
| "js_le PosInf _ = False"
| "js_le _ NegInf = False"
| "js_le (Finite a) (Finite b) = (a \<le> b)"

definition js_gt :: "jsnum \<Rightarrow> jsnum \<Rightarrow> bool" where
  "js_gt a b = js_lt b a"

definition js_ge :: "jsnum \<Rightarrow> jsnum \<Rightarrow> bool" where
  "js_ge a b = js_le b a"

fun Math_max :: "jsnum \<Rightarrow> jsnum \<Rightarrow> jsnum" where
  "Math_max NaN _ = NaN"
| "Math_max _ NaN = NaN"
| "Math_max a b = (if js_lt a b then b else a)"

fun Math_min :: "jsnum \<Rightarrow> jsnum \<Rightarrow> jsnum" where
  "Math_min NaN _ = NaN"
| "Math_min _ NaN = NaN"
| "Math_min a b = (if js_lt b a then b else a)"

fun Number_isNaN :: "jsnum \<Rightarrow> bool" where
  "Number_isNaN NaN = True"
| "Number_isNaN _ = False"

fun Number_isFinite :: "jsnum \<Rightarrow> bool" where
  "Number_isFinite (Finite _) = True"
| "Number_isFinite _ = False"

text \<open>Truthiness of a number: \<^verbatim>\<open>NaN\<close> and zero are falsy.\<close>

fun js_truthy :: "jsnum \<Rightarrow> bool" where
  "js_truthy NaN = False"
| "js_truthy (Finite q) = (q \<noteq> 0)"
| "js_truthy _ = True"

text \<open>Truthiness of an optional string field: a missing field and the empty string are falsy.\<close>

fun present :: "string option \<Rightarrow> bool" where
  "present None = False"
| "present (Some s) = (s \<noteq> [])"

section \<open>Platform primitives\<close>

text \<open>
  The decoders, the Ed25519 curve check and the date functions belong to the runtime and to
  third-party packages. They are parameters of the model. A decoder returns \<open>None\<close> where
  the real one throws; \<open>Date_parse\<close> returns \<open>None\<close> for \<^verbatim>\<open>NaN\<close>.
\<close>

type_synonym bytes = "8 word list"

record platform =
  base64_decode :: "string \<Rightarrow> bytes option"
  bs58_decode :: "string \<Rightarrow> bytes option"
  ed25519_verify :: "bytes \<Rightarrow> bytes \<Rightarrow> bytes \<Rightarrow> bool"
  Date_parse :: "string \<Rightarrow> int option"
  iso_format :: "int \<Rightarrow> string"

datatype exn = RangeError | NaclError string

definition encode :: "string \<Rightarrow> bytes" where
  "encode s = map (\<lambda>c. of_nat (of_char c)) s"

text \<open>
  The constants of tweetnacl that crypto.ts reads. The package defines \<^verbatim>\<open>publicKeyLength\<close>
  and \<^verbatim>\<open>signatureLength\<close> on \<^verbatim>\<open>nacl.sign\<close>. The function \<^verbatim>\<open>nacl.sign.detached\<close> has the single
  property \<^verbatim>\<open>verify\<close>, so the expression \<^verbatim>\<open>nacl.sign.detached.signatureLength\<close> that crypto.ts
  compares the signature's length with is \<^verbatim>\<open>undefined\<close>: \<open>None\<close> here.
\<close>

definition publicKeyLength :: nat where
  "publicKeyLength = 32"

definition nacl_sign_detached_signatureLength :: "nat option" where
  "nacl_sign_detached_signatureLength = None"

text \<open>
  \<^verbatim>\<open>n !== v\<close> for a number \<open>n\<close> and a property \<open>v\<close> that is a number or \<^verbatim>\<open>undefined\<close>: a
  number is never strictly equal to \<^verbatim>\<open>undefined\<close>.
\<close>

definition strict_neq :: "nat \<Rightarrow> nat option \<Rightarrow> bool" where
  "strict_neq n v = (case v of None \<Rightarrow> True | Some k \<Rightarrow> n \<noteq> k)"

text \<open>
  \<^verbatim>\<open>nacl.sign.detached.verify\<close> throws on a signature that is not \<^verbatim>\<open>crypto_sign_BYTES\<close> (64)
  long or a public key that is not \<^verbatim>\<open>crypto_sign_PUBLICKEYBYTES\<close> (32) long, and otherwise
  returns the result of the curve check.
\<close>

definition crypto_sign_BYTES :: nat where
  "crypto_sign_BYTES = 64"

definition nacl_sign_detached_verify ::
  "platform \<Rightarrow> bytes \<Rightarrow> bytes \<Rightarrow> bytes \<Rightarrow> exn + bool" where
  "nacl_sign_detached_verify P msg sg pk =
     (if length sg \<noteq> crypto_sign_BYTES then Inl (NaclError ''bad signature size'')
      else if length pk \<noteq> publicKeyLength then Inl (NaclError ''bad public key size'')
      else Inr (ed25519_verify P msg sg pk))"

section \<open>crypto.ts\<close>

definition verifyMessage :: "platform \<Rightarrow> string \<Rightarrow> string \<Rightarrow> string \<Rightarrow> exn + bool" where
  "verifyMessage P message signature pubkey =
     (let msgBytes = encode message in
      case base64_decode P signature of
        None \<Rightarrow> Inr False
      | Some sigBytes \<Rightarrow>
          (case bs58_decode P pubkey of
             None \<Rightarrow> Inr False
           | Some pubkeyBytes \<Rightarrow>
               if length pubkeyBytes \<noteq> publicKeyLength then Inr False
               else if strict_neq (length sigBytes) nacl_sign_detached_signatureLength then Inr False
               else nacl_sign_detached_verify P msgBytes sigBytes pubkeyBytes))"

definition verifyEd25519Base64 :: "platform \<Rightarrow> string \<Rightarrow> string \<Rightarrow> string \<Rightarrow> exn + bool" where
  "verifyEd25519Base64 P message signatureBase64 publicKeyBase64 =
     (let msgBytes = encode message in
      case base64_decode P signatureBase64 of
        None \<Rightarrow> Inr False
      | Some sigBytes \<Rightarrow>
          (case base64_decode P publicKeyBase64 of
             None \<Rightarrow> Inr False
           | Some pubBytes \<Rightarrow>
               if strict_neq (length sigBytes) nacl_sign_detached_signatureLength then Inr False
               else if length pubBytes \<noteq> publicKeyLength then Inr False
               else nacl_sign_detached_verify P msgBytes sigBytes pubBytes))"

definition isValidSolanaPublicKey :: "platform \<Rightarrow> string \<Rightarrow> bool" where
  "isValidSolanaPublicKey P pubkey =
     (case bs58_decode P pubkey of
        None \<Rightarrow> False
      | Some bs \<Rightarrow> length bs = publicKeyLength)"

text \<open>A toy platform for evaluating the model on concrete inputs.\<close>

definition toy_platform :: platform where
  "toy_platform =
     \<lparr> base64_decode = (\<lambda>s. if s = ''!'' then None else Some (replicate (length s) 0)),
       bs58_decode = (\<lambda>s. if s = ''0'' then None else Some (replicate (length s) 0)),
       ed25519_verify = (\<lambda>m sg pk. True),
       Date_parse = (\<lambda>s. if s = ''T120000'' then Some 120000
                          else if s = ''T1000'' then Some 1000 else None),
       iso_format = (\<lambda>t. if t = 120000 then ''T120000''
                          else if t = 1000 then ''T1000'' else ''T?'') \<rparr>"

section \<open>Dates\<close>

text \<open>
  \<^verbatim>\<open>new Date(x).toISOString()\<close>: the time value is truncated towards zero; outside the range
  of valid time values, and for a non-finite \<open>x\<close>, the date is invalid and \<^verbatim>\<open>toISOString\<close>
  throws a \<^verbatim>\<open>RangeError\<close>.
\<close>

definition trunc :: "rat \<Rightarrow> int" where
  "trunc q = (if 0 \<le> q then \<lfloor>q\<rfloor> else \<lceil>q\<rceil>)"

definition MAX_TIME_VALUE :: rat where
  "MAX_TIME_VALUE = 8640000000000000"

fun Date_toISOString :: "platform \<Rightarrow> jsnum \<Rightarrow> exn + string" where
  "Date_toISOString P (Finite q) =
     (if \<bar>q\<bar> \<le> MAX_TIME_VALUE then Inr (iso_format P (trunc q)) else Inl RangeError)"
| "Date_toISOString P _ = Inl RangeError"

definition of_ms :: "int \<Rightarrow> jsnum" where
  "of_ms t = Finite (of_int t)"

fun of_parse :: "int option \<Rightarrow> jsnum" where
  "of_parse None = NaN"
| "of_parse (Some t) = of_ms t"

section \<open>protocol.ts\<close>

definition PROTOCOL_VERSION :: string where
  "PROTOCOL_VERSION = ''OPENCLAW_HIVEMIND_V1''"

fun join_lines :: "string list \<Rightarrow> string" where
  "join_lines [] = []"
| "join_lines [x] = x"
| "join_lines (x # y # ys) = x @ [CHR 0x0A] @ join_lines (y # ys)"

definition buildJoinMessage ::
  "string \<Rightarrow> string \<Rightarrow> string \<Rightarrow> string \<Rightarrow> string \<Rightarrow> string \<Rightarrow> string" where
  "buildJoinMessage agentId pubkey nonce hiveId challengeExpiresAt timestamp =
     join_lines [PROTOCOL_VERSION, agentId, pubkey, nonce, hiveId, challengeExpiresAt, timestamp]"

section \<open>server.ts: data model\<close>

record Challenge =
  ch_agentId :: string
  ch_pubkey :: string
  ch_nonce :: string
  ch_hiveId :: string
  ch_expiresAt :: string

record Session =
  se_agentId :: string
  se_pubkey :: string
  se_hiveId :: string
  se_expiresAt :: int

datatype source = Local | Gossip

text \<open>
  \<open>MessageFields\<close> is \<^verbatim>\<open>Omit<HiveMessage, "id">\<close>. The gossip paths copy \<open>agentId\<close> and
  \<open>content\<close> from the incoming record without a check of their own, so a stored message
  may lack them: they are optional here.
\<close>

record MessageFields =
  uid :: string
  ts :: string
  createdAtMs :: jsnum
  agentId :: "string option"
  hiveId :: string
  content :: "string option"
  channel :: string
  source :: source

record HiveMessage = MessageFields +
  id_n :: nat

record Config =
  HIVE_ID :: string
  GOSSIP_TOKEN :: string
  GOSSIP_PEERS :: "string list"
  OPENCLAW_DEVICE_PROOF_REQUIRED :: bool
  OPENCLAW_DEVICE_PROOF_TTL_MS :: jsnum

definition CHALLENGE_TTL_MS :: int where
  "CHALLENGE_TTL_MS = 2 * 60 * 1000"

definition SESSION_TTL_MS :: int where
  "SESSION_TTL_MS = 24 * 60 * 60 * 1000"

definition MAX_CLOCK_SKEW_MS :: int where
  "MAX_CLOCK_SKEW_MS = 2 * 60 * 1000"

record ServerState =
  challenges :: "string \<rightharpoonup> Challenge"
  sessions :: "string \<rightharpoonup> Session"
  messages :: "HiveMessage list"
  messageIds :: "string set"
  peerCursors :: "string \<rightharpoonup> jsnum"
  nextMessageId :: nat

definition empty_state :: ServerState where
  "empty_state =
     \<lparr> challenges = Map.empty, sessions = Map.empty, messages = [], messageIds = {},
       peerCursors = Map.empty, nextMessageId = 1 \<rparr>"

text \<open>
  The response of a handler: a 200 with its payload, an error status with its message, or an
  exception that leaves the handler (the runtime answers 500).
\<close>

datatype payload =
    ChallengeIssued string string string string
  | Joined string string string string
  | Posted HiveMessage
  | MessageList string "HiveMessage list"
  | GossipFeed string int "HiveMessage list"
  | PushCounts nat nat

datatype response = Ok payload | Error nat string | Unhandled exn

definition badRequest :: "string \<Rightarrow> response" where
  "badRequest message = Error 400 message"

definition unauthorized :: "string \<Rightarrow> response" where
  "unauthorized message = Error 401 message"

section \<open>server.ts: message store\<close>

text \<open>
  \<^verbatim>\<open>{ id: nextMessageId++, ...input }\<close>: the counter advances, and a property \<^verbatim>\<open>id\<close> carried
  by the input object overrides the allocated one (the poll loop passes an object with
  \<^verbatim>\<open>id: 0\<close>). \<open>input_id\<close> is that property, when the input has one.
\<close>

definition storeMessage ::
  "nat option \<Rightarrow> MessageFields \<Rightarrow> ServerState \<Rightarrow> HiveMessage option \<times> ServerState" where
  "storeMessage input_id input s =
     (if uid input \<in> messageIds s then (None, s)
      else
        let message =
              \<lparr> uid = uid input, ts = ts input, createdAtMs = createdAtMs input,
                agentId = agentId input, hiveId = hiveId input, content = content input,
                channel = channel input, source = source input,
                id_n = (case input_id of None \<Rightarrow> nextMessageId s | Some i \<Rightarrow> i) \<rparr>
        in (Some message,
            s\<lparr> nextMessageId := nextMessageId s + 1,
               messageIds := insert (uid message) (messageIds s),
               messages := messages s @ [message] \<rparr>))"

section \<open>server.ts: challenge and join\<close>

definition cleanupChallenges :: "platform \<Rightarrow> int \<Rightarrow> ServerState \<Rightarrow> ServerState" where
  "cleanupChallenges P now s =
     s\<lparr> challenges := (\<lambda>nonce.
          case challenges s nonce of
            None \<Rightarrow> None
          | Some challenge \<Rightarrow>
              (case Date_parse P (ch_expiresAt challenge) of
                 None \<Rightarrow> Some challenge
               | Some e \<Rightarrow> if e \<le> now then None else Some challenge)) \<rparr>"

record ChallengeBody =
  cb_agent_id :: "string option"
  cb_pubkey :: "string option"
  cb_hive_id :: "string option"

text \<open>
  \<open>nonce\<close> is the value \<^verbatim>\<open>randomUUID()\<close> returns and \<open>now\<close> the value of \<^verbatim>\<open>Date.now()\<close>
  during the request. A request whose JSON does not parse has the body \<open>None\<close>.
\<close>

definition challenge_handler ::
  "platform \<Rightarrow> Config \<Rightarrow> int \<Rightarrow> string \<Rightarrow> ChallengeBody option \<Rightarrow> ServerState
     \<Rightarrow> response \<times> ServerState" where
  "challenge_handler P cfg now nonce body s =
     (case body of
        None \<Rightarrow> (badRequest ''agent_id and pubkey are required'', s)
      | Some b \<Rightarrow>
          (case (cb_agent_id b, cb_pubkey b) of
             (Some agent_id, Some pubkey) \<Rightarrow>
               if agent_id = [] \<or> pubkey = []
               then (badRequest ''agent_id and pubkey are required'', s)
               else if \<not> isValidSolanaPublicKey P pubkey
               then (badRequest ''pubkey is not a valid Solana public key'', s)
               else
                 let s1 = cleanupChallenges P now s in
                 (case Date_toISOString P (of_ms (now + CHALLENGE_TTL_MS)) of
                    Inl e \<Rightarrow> (Unhandled e, s1)
                  | Inr expiresAt \<Rightarrow>
                      let hiveId = (case cb_hive_id b of None \<Rightarrow> HIVE_ID cfg | Some h \<Rightarrow> h) in
                      (Ok (ChallengeIssued PROTOCOL_VERSION nonce hiveId expiresAt),
                       s1\<lparr> challenges := (challenges s1)(nonce \<mapsto>
                            \<lparr> ch_agentId = agent_id, ch_pubkey = pubkey, ch_nonce = nonce,
                              ch_hiveId = hiveId, ch_expiresAt = expiresAt \<rparr>) \<rparr>))
           | _ \<Rightarrow> (badRequest ''agent_id and pubkey are required'', s)))"

record JoinBody =
  agent_id :: "string option"
  pubkey :: "string option"
  nonce :: "string option"
  signature :: "string option"
  timestamp :: "string option"
  hive_id :: "string option"
  expires_at :: "string option"
  openclaw_device_public_key :: "string option"
  openclaw_device_signature :: "string option"
  openclaw_device_nonce :: "string option"
  openclaw_device_signed_at :: "string option"

definition verifyOpenClawDeviceProof ::
  "platform \<Rightarrow> Config \<Rightarrow> int \<Rightarrow> string \<Rightarrow> string \<Rightarrow> string \<Rightarrow> string \<Rightarrow> exn + bool" where
  "verifyOpenClawDeviceProof P cfg now devicePublicKey deviceSignature deviceNonce deviceSignedAt =
     (case Date_parse P deviceSignedAt of
        None \<Rightarrow> Inr False
      | Some signedAtMs \<Rightarrow>
          if js_gt (of_ms \<bar>now - signedAtMs\<bar>) (OPENCLAW_DEVICE_PROOF_TTL_MS cfg) then Inr False
          else verifyEd25519Base64 P deviceNonce deviceSignature devicePublicKey)"

text \<open>
  The device-proof step of \<^verbatim>\<open>/join\<close>: \<open>None\<close> when the step lets the request through,
  otherwise the response it returns.
\<close>

definition device_proof_step :: "platform \<Rightarrow> Config \<Rightarrow> int \<Rightarrow> JoinBody \<Rightarrow> response option" where
  "device_proof_step P cfg now b =
     (let deviceFieldsProvided =
            (present (openclaw_device_public_key b) \<or> present (openclaw_device_signature b) \<or>
             present (openclaw_device_nonce b) \<or> present (openclaw_device_signed_at b))
      in if OPENCLAW_DEVICE_PROOF_REQUIRED cfg \<or> deviceFieldsProvided then
           (case (openclaw_device_public_key b, openclaw_device_signature b,
                  openclaw_device_nonce b, openclaw_device_signed_at b) of
              (Some dpk, Some dsig, Some dnonce, Some dsigned) \<Rightarrow>
                if dpk = [] \<or> dsig = [] \<or> dnonce = [] \<or> dsigned = []
                then Some (unauthorized ''missing OpenClaw device proof fields'')
                else (case verifyOpenClawDeviceProof P cfg now dpk dsig dnonce dsigned of
                        Inl e \<Rightarrow> Some (Unhandled e)
                      | Inr proofOk \<Rightarrow>
                          if \<not> proofOk then Some (unauthorized ''invalid OpenClaw device proof'')
                          else None)
            | _ \<Rightarrow> Some (unauthorized ''missing OpenClaw device proof fields''))
         else None)"

text \<open>\<open>token\<close> is the value \<^verbatim>\<open>randomUUID()\<close> returns for the session token.\<close>

definition join_handler ::
  "platform \<Rightarrow> Config \<Rightarrow> int \<Rightarrow> string \<Rightarrow> JoinBody option \<Rightarrow> ServerState
     \<Rightarrow> response \<times> ServerState" where
  "join_handler P cfg now token body s =
     (case body of
        None \<Rightarrow> (badRequest ''agent_id, pubkey, nonce, signature, timestamp are required'', s)
      | Some b \<Rightarrow>
          if \<not> present (agent_id b) \<or> \<not> present (pubkey b) \<or> \<not> present (nonce b) \<or>
             \<not> present (signature b) \<or> \<not> present (timestamp b)
          then (badRequest ''agent_id, pubkey, nonce, signature, timestamp are required'', s)
          else
            (case (agent_id b, pubkey b, nonce b, signature b, timestamp b) of
               (Some b_agent_id, Some b_pubkey, Some b_nonce, Some b_signature, Some b_timestamp) \<Rightarrow>
                 (case challenges s b_nonce of
                    None \<Rightarrow> (unauthorized ''challenge not found or expired'', s)
                  | Some challenge \<Rightarrow>
                      if ch_agentId challenge \<noteq> b_agent_id \<or> ch_pubkey challenge \<noteq> b_pubkey
                      then (unauthorized ''challenge does not match agent_id or pubkey'', s)
                      else if ch_hiveId challenge
                                \<noteq> (case hive_id b of None \<Rightarrow> ch_hiveId challenge | Some h \<Rightarrow> h)
                      then (unauthorized ''hive_id mismatch'', s)
                      else if ch_expiresAt challenge
                                \<noteq> (case expires_at b of None \<Rightarrow> ch_expiresAt challenge | Some e \<Rightarrow> e)
                      then (unauthorized ''expires_at mismatch'', s)
                      else if (case Date_parse P (ch_expiresAt challenge) of
                                 None \<Rightarrow> True
                               | Some challengeExpiry \<Rightarrow> challengeExpiry < now)
                      then (unauthorized ''challenge expired'',
                            s\<lparr> challenges := (challenges s)(b_nonce := None) \<rparr>)
                      else
                        (case Date_parse P b_timestamp of
                           None \<Rightarrow> (badRequest ''timestamp must be an ISO string'', s)
                         | Some timestampMs \<Rightarrow>
                             if \<bar>now - timestampMs\<bar> > MAX_CLOCK_SKEW_MS
                             then (unauthorized ''timestamp outside allowed clock skew'', s)
                             else
                               (case device_proof_step P cfg now b of
                                  Some r \<Rightarrow> (r, s)
                                | None \<Rightarrow>
                                    let message =
                                          buildJoinMessage (ch_agentId challenge) (ch_pubkey challenge)
                                            (ch_nonce challenge) (ch_hiveId challenge)
                                            (ch_expiresAt challenge) b_timestamp
                                    in
                                    (case verifyMessage P message b_signature (ch_pubkey challenge) of
                                       Inl e \<Rightarrow> (Unhandled e, s)
                                     | Inr valid \<Rightarrow>
                                         if \<not> valid then (unauthorized ''invalid signature'', s)
                                         else
                                           let s1 = s\<lparr> challenges := (challenges s)(b_nonce := None) \<rparr>;
                                               session =
                                                 \<lparr> se_agentId = ch_agentId challenge,
                                                   se_pubkey = ch_pubkey challenge,
                                                   se_hiveId = ch_hiveId challenge,
                                                   se_expiresAt = now + SESSION_TTL_MS \<rparr>;
                                               s2 = s1\<lparr> sessions := (sessions s1)(token \<mapsto> session) \<rparr>
                                           in
                                           (case Date_toISOString P (of_ms (se_expiresAt session)) of
                                              Inl e \<Rightarrow> (Unhandled e, s2)
                                            | Inr iso_expires \<Rightarrow>
                                                (Ok (Joined token iso_expires (se_agentId session)
                                                       (se_hiveId session)), s2))))))
             | _ \<Rightarrow> (badRequest ''agent_id, pubkey, nonce, signature, timestamp are required'', s)))"

section \<open>server.ts: sessions and the message endpoints\<close>

text \<open>
  \<open>token\<close> is what \<^verbatim>\<open>parseAuthToken\<close> extracts from the request: \<open>None\<close> without a
  well-formed bearer header.
\<close>

definition requireSession ::
  "int \<Rightarrow> string option \<Rightarrow> ServerState \<Rightarrow> Session option \<times> ServerState" where
  "requireSession now token s =
     (case token of
        None \<Rightarrow> (None, s)
      | Some t \<Rightarrow>
          if t = [] then (None, s)
          else (case sessions s t of
                  None \<Rightarrow> (None, s)
                | Some session \<Rightarrow>
                    if se_expiresAt session < now
                    then (None, s\<lparr> sessions := (sessions s)(t := None) \<rparr>)
                    else (Some session, s)))"

record MessageBody =
  mb_content :: "string option"
  mb_channel :: "string option"

text \<open>\<open>new_uid\<close> is the value \<^verbatim>\<open>randomUUID()\<close> returns for the message.\<close>

definition message_handler ::
  "platform \<Rightarrow> int \<Rightarrow> string \<Rightarrow> string option \<Rightarrow> MessageBody option \<Rightarrow> ServerState
     \<Rightarrow> response \<times> ServerState" where
  "message_handler P now new_uid token body s =
     (case requireSession now token s of
        (None, s1) \<Rightarrow> (unauthorized ''missing or expired session'', s1)
      | (Some session, s1) \<Rightarrow>
          (case (case body of None \<Rightarrow> None | Some b \<Rightarrow> mb_content b) of
             None \<Rightarrow> (badRequest ''content is required'', s1)
           | Some c \<Rightarrow>
               if c = [] then (badRequest ''content is required'', s1)
               else
                 (case Date_toISOString P (of_ms now) of
                    Inl e \<Rightarrow> (Unhandled e, s1)
                  | Inr iso_now \<Rightarrow>
                      (case storeMessage None
                              \<lparr> uid = new_uid, ts = iso_now, createdAtMs = of_ms now,
                                agentId = Some (se_agentId session), hiveId = se_hiveId session,
                                content = Some c,
                                channel = (case (case body of None \<Rightarrow> None | Some b \<Rightarrow> mb_channel b) of
                                             None \<Rightarrow> ''default'' | Some ch \<Rightarrow> ch),
                                source = Local \<rparr> s1 of
                         (None, s2) \<Rightarrow> (Error 500 ''failed to store message'', s2)
                       | (Some message, s2) \<Rightarrow> (Ok (Posted message), s2)))))"

text \<open>
  \<^verbatim>\<open>xs.slice(start)\<close>: the start is converted by \<^verbatim>\<open>ToIntegerOrInfinity\<close> (\<^verbatim>\<open>NaN\<close> becomes 0,
  a finite value is truncated); a negative start counts from the end.
\<close>

fun js_neg :: "jsnum \<Rightarrow> jsnum" where
  "js_neg NaN = NaN"
| "js_neg NegInf = PosInf"
| "js_neg PosInf = NegInf"
| "js_neg (Finite q) = Finite (- q)"

fun Array_slice :: "jsnum \<Rightarrow> 'a list \<Rightarrow> 'a list" where
  "Array_slice NaN xs = xs"
| "Array_slice NegInf xs = xs"
| "Array_slice PosInf xs = []"
| "Array_slice (Finite q) xs =
     (let r = trunc q in
      if r < 0 then drop (nat (max (int (length xs) + r) 0)) xs
      else drop (nat (min r (int (length xs)))) xs)"

text \<open>
  \<open>sinceParam\<close> and \<open>limitParam\<close> are \<^verbatim>\<open>Number(...)\<close> of the query parameters, \<open>None\<close> when
  the parameter is absent (the handler then takes \<^verbatim>\<open>"0"\<close> and \<^verbatim>\<open>"50"\<close>).
\<close>

definition effective_limit :: "jsnum option \<Rightarrow> jsnum" where
  "effective_limit limitParam =
     Math_min (Finite 200) (Math_max (Finite 1) (case limitParam of None \<Rightarrow> Finite 50 | Some l \<Rightarrow> l))"

definition since_or_zero :: "jsnum option \<Rightarrow> jsnum" where
  "since_or_zero sinceParam =
     (let since = (case sinceParam of None \<Rightarrow> Finite 0 | Some v \<Rightarrow> v)
      in if Number_isNaN since then Finite 0 else since)"

definition messages_handler ::
  "int \<Rightarrow> string option \<Rightarrow> jsnum option \<Rightarrow> jsnum option \<Rightarrow> ServerState
     \<Rightarrow> response \<times> ServerState" where
  "messages_handler now token sinceParam limitParam s =
     (case requireSession now token s of
        (None, s1) \<Rightarrow> (unauthorized ''missing or expired session'', s1)
      | (Some session, s1) \<Rightarrow>
          let limit = effective_limit limitParam;
              filtered = filter (\<lambda>msg. hiveId msg = se_hiveId session \<and>
                                   js_gt (Finite (of_nat (id_n msg))) (since_or_zero sinceParam))
                           (messages s1)
          in (Ok (MessageList (se_hiveId session) (Array_slice (js_neg limit) filtered)), s1))"

section \<open>server.ts: gossip\<close>

definition authorizeGossip :: "Config \<Rightarrow> string option \<Rightarrow> bool" where
  "authorizeGossip cfg header = (GOSSIP_TOKEN cfg = [] \<or> header = Some (GOSSIP_TOKEN cfg))"

definition gossip_messages_handler ::
  "Config \<Rightarrow> int \<Rightarrow> string option \<Rightarrow> string option \<Rightarrow> jsnum option \<Rightarrow> ServerState \<Rightarrow> response" where
  "gossip_messages_handler cfg now header hiveParam sinceParam s =
     (if \<not> authorizeGossip cfg header then unauthorized ''invalid gossip token''
      else
        let hive = (case hiveParam of None \<Rightarrow> HIVE_ID cfg | Some h \<Rightarrow> h);
            filtered = filter (\<lambda>msg. hiveId msg = hive \<and>
                                 js_ge (createdAtMs msg) (since_or_zero sinceParam))
                         (messages s)
        in Ok (GossipFeed hive now filtered))"

text \<open>
  An element of the \<^verbatim>\<open>messages\<close> array of a gossip payload, as parsed from JSON: every field
  may be missing. \<open>r_createdAtMs\<close> is \<^verbatim>\<open>Number(msg.createdAtMs)\<close>. An element that is
  \<^verbatim>\<open>null\<close> (or otherwise falsy) is \<open>None\<close> in the list.
\<close>

record GossipRecord =
  r_uid :: "string option"
  r_ts :: "string option"
  r_createdAtMs :: jsnum
  r_agentId :: "string option"
  r_hiveId :: "string option"
  r_content :: "string option"
  r_channel :: "string option"

text \<open>Reading a string field that a preceding guard has found present.\<close>

fun field :: "string option \<Rightarrow> string" where
  "field None = []"
| "field (Some v) = v"

text \<open>\<^verbatim>\<open>msg.ts ?? new Date(createdAtMs || Date.now()).toISOString()\<close>\<close>

definition record_ts :: "platform \<Rightarrow> int \<Rightarrow> GossipRecord \<Rightarrow> exn + string" where
  "record_ts P now msg =
     (case r_ts msg of
        Some t \<Rightarrow> Inr t
      | None \<Rightarrow> Date_toISOString P (if js_truthy (r_createdAtMs msg) then r_createdAtMs msg
                                     else of_ms now))"

text \<open>The object both gossip paths pass to \<open>storeMessage\<close>.\<close>

definition gossip_fields :: "platform \<Rightarrow> GossipRecord \<Rightarrow> string \<Rightarrow> string \<Rightarrow> string \<Rightarrow> MessageFields" where
  "gossip_fields P msg msg_uid msg_hiveId msg_ts =
     \<lparr> uid = msg_uid, ts = msg_ts,
       createdAtMs = (if Number_isFinite (r_createdAtMs msg) then r_createdAtMs msg
                      else of_parse (Date_parse P msg_ts)),
       agentId = r_agentId msg, hiveId = msg_hiveId, content = r_content msg,
       channel = (case r_channel msg of None \<Rightarrow> ''default'' | Some c \<Rightarrow> c),
       source = Gossip \<rparr>"

text \<open>
  The loop of \<^verbatim>\<open>/gossip/push\<close>, with the counters \<open>accepted\<close> and \<open>skipped\<close>. An exception
  leaves the loop with the state as it is then.
\<close>

fun push_loop ::
  "platform \<Rightarrow> Config \<Rightarrow> int \<Rightarrow> GossipRecord option list \<Rightarrow> nat \<Rightarrow> nat \<Rightarrow> ServerState
     \<Rightarrow> (exn + nat \<times> nat) \<times> ServerState" where
  "push_loop P cfg now [] accepted skipped s = (Inr (accepted, skipped), s)"
| "push_loop P cfg now (None # rest) accepted skipped s =
     push_loop P cfg now rest accepted (skipped + 1) s"
| "push_loop P cfg now (Some msg # rest) accepted skipped s =
     (if \<not> present (r_uid msg) \<or> \<not> present (r_agentId msg) \<or> \<not> present (r_hiveId msg) \<or>
         \<not> present (r_content msg)
      then push_loop P cfg now rest accepted (skipped + 1) s
      else if r_hiveId msg \<noteq> Some (HIVE_ID cfg)
      then push_loop P cfg now rest accepted (skipped + 1) s
      else
        (case record_ts P now msg of
           Inl e \<Rightarrow> (Inl e, s)
         | Inr msg_ts \<Rightarrow>
             (case storeMessage None
                     (gossip_fields P msg (field (r_uid msg)) (field (r_hiveId msg)) msg_ts) s of
                (Some stored, s1) \<Rightarrow> push_loop P cfg now rest (accepted + 1) skipped s1
              | (None, s1) \<Rightarrow> push_loop P cfg now rest accepted (skipped + 1) s1)))"

text \<open>
  \<open>body\<close> is the \<^verbatim>\<open>messages\<close> array of the request; \<open>None\<close> when the JSON does not parse or
  has no such array.
\<close>

definition gossip_push_handler ::
  "platform \<Rightarrow> Config \<Rightarrow> int \<Rightarrow> string option \<Rightarrow> GossipRecord option list option \<Rightarrow> ServerState
     \<Rightarrow> response \<times> ServerState" where
  "gossip_push_handler P cfg now header body s =
     (if \<not> authorizeGossip cfg header then (unauthorized ''invalid gossip token'', s)
      else
        let incoming = (case body of None \<Rightarrow> [] | Some ms \<Rightarrow> ms) in
        (case push_loop P cfg now incoming 0 0 s of
           (Inl e, s1) \<Rightarrow> (Unhandled e, s1)
         | (Inr (accepted, skipped), s1) \<Rightarrow> (Ok (PushCounts accepted skipped), s1)))"

text \<open>
  The loop of \<^verbatim>\<open>pollPeers\<close> over one peer's batch, with the running \<open>maxSeen\<close>. The loop
  runs inside the \<^verbatim>\<open>try\<close> block: an exception ends it, with the state as it is then.
\<close>

fun poll_loop ::
  "platform \<Rightarrow> Config \<Rightarrow> int \<Rightarrow> GossipRecord option list \<Rightarrow> jsnum \<Rightarrow> ServerState
     \<Rightarrow> (exn + jsnum) \<times> ServerState" where
  "poll_loop P cfg now [] maxSeen s = (Inr maxSeen, s)"
| "poll_loop P cfg now (None # rest) maxSeen s = poll_loop P cfg now rest maxSeen s"
| "poll_loop P cfg now (Some msg # rest) maxSeen s =
     (if r_hiveId msg \<noteq> Some (HIVE_ID cfg) \<or> \<not> present (r_uid msg)
      then poll_loop P cfg now rest maxSeen s
      else
        (case record_ts P now msg of
           Inl e \<Rightarrow> (Inl e, s)
         | Inr msg_ts \<Rightarrow>
             (case storeMessage (Some 0)
                     (gossip_fields P msg (field (r_uid msg)) (field (r_hiveId msg)) msg_ts) s of
                (Some stored, s1) \<Rightarrow>
                  poll_loop P cfg now rest
                    (if Number_isFinite (createdAtMs stored)
                     then Math_max maxSeen (createdAtMs stored) else maxSeen) s1
              | (None, s1) \<Rightarrow> poll_loop P cfg now rest maxSeen s1)))"

text \<open>\<^verbatim>\<open>peerCursors.get(peer) ?? 0\<close>\<close>

definition cursor_of :: "ServerState \<Rightarrow> string \<Rightarrow> jsnum" where
  "cursor_of s peer = (case peerCursors s peer of None \<Rightarrow> Finite 0 | Some c \<Rightarrow> c)"

text \<open>
  One iteration of the loop over the peers has two parts. It reads the peer's cursor into
  \<^verbatim>\<open>sinceMs\<close> and sends the request; then it awaits the response and its JSON, and other
  code of the server runs meanwhile (requests, and further cycles of \<^verbatim>\<open>pollPeers\<close>, which
  \<^verbatim>\<open>setInterval\<close> starts whether or not the previous one has ended). \<open>poll_resume\<close> is the
  second part, from the response on, which runs without interruption: on the state of that
  moment, with the \<^verbatim>\<open>sinceMs\<close> read before. \<open>fetched\<close> is the outcome of the request: \<open>None\<close>
  for a network error, a status that is not a success or a payload that does not parse;
  otherwise the \<^verbatim>\<open>messages\<close> array (empty when the payload has none).
\<close>

definition poll_resume ::
  "platform \<Rightarrow> Config \<Rightarrow> int \<Rightarrow> string \<Rightarrow> jsnum \<Rightarrow> GossipRecord option list option \<Rightarrow> ServerState
     \<Rightarrow> ServerState" where
  "poll_resume P cfg now peer sinceMs fetched s =
     (case fetched of
        None \<Rightarrow> s
      | Some incoming \<Rightarrow>
          (case poll_loop P cfg now incoming sinceMs s of
             (Inl e, s1) \<Rightarrow> s1
           | (Inr maxSeen, s1) \<Rightarrow>
               if js_gt maxSeen sinceMs
               then s1\<lparr> peerCursors := (peerCursors s1)(peer \<mapsto> maxSeen) \<rparr>
               else s1))"

text \<open>
  An iteration during which nothing else runs: the cursor it compares with is the one of
  the state it resumes on. \<open>fetched\<close> gives the outcome of the request for each
  \<^verbatim>\<open>since_ms\<close>. \<open>pollPeers\<close> is a cycle of such iterations.
\<close>

definition poll_peer ::
  "platform \<Rightarrow> Config \<Rightarrow> int \<Rightarrow> string \<Rightarrow> (jsnum \<Rightarrow> GossipRecord option list option) \<Rightarrow> ServerState
     \<Rightarrow> ServerState" where
  "poll_peer P cfg now peer fetched s =
     (let sinceMs = cursor_of s peer
      in poll_resume P cfg now peer sinceMs (fetched sinceMs) s)"

definition pollPeers ::
  "platform \<Rightarrow> Config \<Rightarrow> int \<Rightarrow> (string \<Rightarrow> jsnum \<Rightarrow> GossipRecord option list option)
     \<Rightarrow> ServerState \<Rightarrow> ServerState" where
  "pollPeers P cfg now fetch s =
     fold (\<lambda>peer. poll_peer P cfg now peer (fetch peer)) (GOSSIP_PEERS cfg) s"

section \<open>worker.ts: message store\<close>

text \<open>
  The Durable Object keeps everything in its key-value storage. The keys of one prefix form
  one component of the state: \<^verbatim>\<open>msg:<id>\<close> (kept as the list of entries, keyed by the
  id), \<^verbatim>\<open>uid:<uid>\<close>, \<^verbatim>\<open>meta:nextMessageId\<close> and \<^verbatim>\<open>peer:<peer>:cursor\<close>.
\<close>

record WorkerState =
  w_challenges :: "string \<rightharpoonup> Challenge"
  w_sessions :: "string \<rightharpoonup> Session"
  w_msgs :: "(nat \<times> HiveMessage) list"
  w_uids :: "string \<rightharpoonup> nat"
  w_nextMessageId :: "nat option"
  w_cursors :: "string \<rightharpoonup> jsnum"

definition empty_worker :: WorkerState where
  "empty_worker =
     \<lparr> w_challenges = Map.empty, w_sessions = Map.empty, w_msgs = [], w_uids = Map.empty,
       w_nextMessageId = None, w_cursors = Map.empty \<rparr>"

definition nextMessageId_worker :: "WorkerState \<Rightarrow> nat \<times> WorkerState" where
  "nextMessageId_worker s =
     (let current = (case w_nextMessageId s of None \<Rightarrow> 1 | Some c \<Rightarrow> c)
      in (current, s\<lparr> w_nextMessageId := Some (current + 1) \<rparr>))"

text \<open>
  \<^verbatim>\<open>const existing = await this.state.storage.get(uidKey); if (existing) return null\<close>:
  the value stored under the uid is the message's id, a number, truthy unless it is 0.
\<close>

definition uid_stored_worker :: "WorkerState \<Rightarrow> string \<Rightarrow> bool" where
  "uid_stored_worker s u = (case w_uids s u of None \<Rightarrow> False | Some existing \<Rightarrow> existing \<noteq> 0)"

definition storeMessage_worker ::
  "MessageFields \<Rightarrow> WorkerState \<Rightarrow> HiveMessage option \<times> WorkerState" where
  "storeMessage_worker input s =
     (if uid_stored_worker s (uid input)
      then (None, s)
      else
        (case nextMessageId_worker s of
           (new_id, s1) \<Rightarrow>
             let message =
                   \<lparr> uid = uid input, ts = ts input, createdAtMs = createdAtMs input,
                     agentId = agentId input, hiveId = hiveId input, content = content input,
                     channel = channel input, source = source input, id_n = new_id \<rparr>
             in (Some message,
                 s1\<lparr> w_msgs := AList.update new_id message (w_msgs s1),
                     w_uids := (w_uids s1)(uid input \<mapsto> new_id) \<rparr>)))"

text \<open>
  What the ids allocated so far guarantee in the worker's storage: the counter is positive
  and above every id in use.
\<close>

definition worker_store_ok :: "WorkerState \<Rightarrow> bool" where
  "worker_store_ok s =
     (let next = (case w_nextMessageId s of None \<Rightarrow> 1 | Some c \<Rightarrow> c)
      in 0 < next \<and> list_all (\<lambda>(k, m). k < next) (w_msgs s))"

section \<open>server.ts: runs of the server\<close>

text \<open>
  What changes the state of a running server: the requests, each with the values the
  runtime supplies (the time; the fresh identifier of \<^verbatim>\<open>randomUUID()\<close>), and the resumption of
  a poll iteration, with the \<^verbatim>\<open>sinceMs\<close> it read when it sent its request and the outcome of
  that request. \<^verbatim>\<open>GET /health\<close>, \<^verbatim>\<open>GET /protocol\<close> and the unknown routes do not touch the
  state. The server starts in \<open>empty_state\<close>.
\<close>

datatype event =
    Challenge_request string "ChallengeBody option"
  | Join_request string "JoinBody option"
  | Message_request string "string option" "MessageBody option"
  | Messages_request "string option" "jsnum option" "jsnum option"
  | Gossip_messages_request "string option" "string option" "jsnum option"
  | Gossip_push_request "string option" "GossipRecord option list option"
  | Poll_resumed string jsnum "GossipRecord option list option"

fun step :: "platform \<Rightarrow> Config \<Rightarrow> int \<Rightarrow> event \<Rightarrow> ServerState \<Rightarrow> ServerState" where
  "step P cfg now (Challenge_request new_nonce body) s =
     snd (challenge_handler P cfg now new_nonce body s)"
| "step P cfg now (Join_request token body) s = snd (join_handler P cfg now token body s)"
| "step P cfg now (Message_request new_uid token body) s =
     snd (message_handler P now new_uid token body s)"
| "step P cfg now (Messages_request token sinceParam limitParam) s =
     snd (messages_handler now token sinceParam limitParam s)"
| "step P cfg now (Gossip_messages_request header hiveParam sinceParam) s = s"
| "step P cfg now (Gossip_push_request header body) s =
     snd (gossip_push_handler P cfg now header body s)"
| "step P cfg now (Poll_resumed peer sinceMs fetched) s =
     poll_resume P cfg now peer sinceMs fetched s"

definition run :: "platform \<Rightarrow> Config \<Rightarrow> (int \<times> event) list \<Rightarrow> ServerState \<Rightarrow> ServerState" where
  "run P cfg events s = fold (\<lambda>(now, e). step P cfg now e) events s"

section \<open>The preconditions of a join, in the order of the protocol\<close>

text \<open>
  The protocol lists what a join request must satisfy, in order: the nonce names a stored
  challenge; the request's agent id and public key, and its hive id and expiry when it
  carries them, are the challenge's; the challenge has not expired; the timestamp parses
  and lies within the clock skew; the device proof, when one is required or begun, is
  complete and valid; the signature verifies over the canonical join message.
  \<open>failed_precondition\<close> is the first of these that a request (with its required fields
  present) fails, and \<open>rejection\<close> the response the server gives for it.
\<close>

datatype precondition =
    NonceLookup | IdentityBinding | HiveBinding | ExpiryBinding | ChallengeExpiry
  | TimestampParse | ClockSkew | DeviceProofFields | DeviceProofValid | SignatureCheck

definition challenge_live :: "platform \<Rightarrow> int \<Rightarrow> Challenge \<Rightarrow> bool" where
  "challenge_live P now c =
     (case Date_parse P (ch_expiresAt c) of None \<Rightarrow> False | Some e \<Rightarrow> now \<le> e)"

definition device_proof_needed :: "Config \<Rightarrow> JoinBody \<Rightarrow> bool" where
  "device_proof_needed cfg b =
     (OPENCLAW_DEVICE_PROOF_REQUIRED cfg \<or> present (openclaw_device_public_key b) \<or>
      present (openclaw_device_signature b) \<or> present (openclaw_device_nonce b) \<or>
      present (openclaw_device_signed_at b))"

definition device_proof_complete :: "JoinBody \<Rightarrow> bool" where
  "device_proof_complete b =
     (present (openclaw_device_public_key b) \<and> present (openclaw_device_signature b) \<and>
      present (openclaw_device_nonce b) \<and> present (openclaw_device_signed_at b))"

definition device_proof_valid :: "platform \<Rightarrow> Config \<Rightarrow> int \<Rightarrow> JoinBody \<Rightarrow> bool" where
  "device_proof_valid P cfg now b =
     (verifyOpenClawDeviceProof P cfg now (field (openclaw_device_public_key b))
        (field (openclaw_device_signature b)) (field (openclaw_device_nonce b))
        (field (openclaw_device_signed_at b)) = Inr True)"

definition signature_valid :: "platform \<Rightarrow> Challenge \<Rightarrow> JoinBody \<Rightarrow> bool" where
  "signature_valid P c b =
     (verifyMessage P
        (buildJoinMessage (ch_agentId c) (ch_pubkey c) (ch_nonce c) (ch_hiveId c)
           (ch_expiresAt c) (field (timestamp b)))
        (field (signature b)) (ch_pubkey c) = Inr True)"

definition failed_precondition ::
  "platform \<Rightarrow> Config \<Rightarrow> int \<Rightarrow> JoinBody \<Rightarrow> ServerState \<Rightarrow> precondition option" where
  "failed_precondition P cfg now b s =
     (case challenges s (field (nonce b)) of
        None \<Rightarrow> Some NonceLookup
      | Some c \<Rightarrow>
          if agent_id b \<noteq> Some (ch_agentId c) \<or> pubkey b \<noteq> Some (ch_pubkey c)
          then Some IdentityBinding
          else if hive_id b \<noteq> None \<and> hive_id b \<noteq> Some (ch_hiveId c) then Some HiveBinding
          else if expires_at b \<noteq> None \<and> expires_at b \<noteq> Some (ch_expiresAt c)
          then Some ExpiryBinding
          else if \<not> challenge_live P now c then Some ChallengeExpiry
          else
            (case Date_parse P (field (timestamp b)) of
               None \<Rightarrow> Some TimestampParse
             | Some t \<Rightarrow>
                 if MAX_CLOCK_SKEW_MS < \<bar>now - t\<bar> then Some ClockSkew
                 else if device_proof_needed cfg b \<and> \<not> device_proof_complete b
                 then Some DeviceProofFields
                 else if device_proof_needed cfg b \<and> \<not> device_proof_valid P cfg now b
                 then Some DeviceProofValid
                 else if \<not> signature_valid P c b then Some SignatureCheck
                 else None))"

fun rejection :: "precondition \<Rightarrow> response" where
  "rejection NonceLookup = Error 401 ''challenge not found or expired''"
| "rejection IdentityBinding = Error 401 ''challenge does not match agent_id or pubkey''"
| "rejection HiveBinding = Error 401 ''hive_id mismatch''"
| "rejection ExpiryBinding = Error 401 ''expires_at mismatch''"
| "rejection ChallengeExpiry = Error 401 ''challenge expired''"
| "rejection TimestampParse = Error 400 ''timestamp must be an ISO string''"
| "rejection ClockSkew = Error 401 ''timestamp outside allowed clock skew''"
| "rejection DeviceProofFields = Error 401 ''missing OpenClaw device proof fields''"
| "rejection DeviceProofValid = Error 401 ''invalid OpenClaw device proof''"
| "rejection SignatureCheck = Error 401 ''invalid signature''"

text \<open>The required fields of a join request are all there and none is empty.\<close>

definition required_fields :: "JoinBody \<Rightarrow> bool" where
  "required_fields b =
     (present (agent_id b) \<and> present (pubkey b) \<and> present (nonce b) \<and>
      present (signature b) \<and> present (timestamp b))"

section \<open>Example inputs\<close>

definition example_fields :: MessageFields where
  "example_fields =
     \<lparr> uid = ''u1'', ts = ''T1000'', createdAtMs = Finite 1000, agentId = Some ''agent-001'',
       hiveId = ''h1'', content = Some ''hello'', channel = ''default'', source = Local \<rparr>"

definition example_config :: Config where
  "example_config =
     \<lparr> HIVE_ID = ''h1'', GOSSIP_TOKEN = [], GOSSIP_PEERS = [],
       OPENCLAW_DEVICE_PROOF_REQUIRED = False, OPENCLAW_DEVICE_PROOF_TTL_MS = Finite 300000 \<rparr>"

definition example_pubkey :: string where
  "example_pubkey = ''11111111111111111111111111111111''"

definition example_signature :: string where
  "example_signature = ''AAAAAAAAAAAAAAAAAAAAAAAAAAAAAAAAAAAAAAAAAAAAAAAAAAAAAAAAAAAAAAAA''"

definition example_challenge_body :: ChallengeBody where
  "example_challenge_body =
     \<lparr> cb_agent_id = Some ''agent-001'', cb_pubkey = Some example_pubkey, cb_hive_id = Some ''h1'' \<rparr>"

definition example_join_body :: JoinBody where
  "example_join_body =
     \<lparr> agent_id = Some ''agent-001'', pubkey = Some example_pubkey, nonce = Some ''n1'',
       signature = Some example_signature, timestamp = Some ''T1000'', hive_id = Some ''h1'',
       expires_at = Some ''T120000'', openclaw_device_public_key = None,
       openclaw_device_signature = None, openclaw_device_nonce = None,
       openclaw_device_signed_at = None \<rparr>"

text \<open>
  The canonical join message of this request for the challenge \<open>n1\<close> below, written out,
  and a platform whose curve check accepts exactly the signatures of 64 bytes over this
  message, for a key of 32 bytes.
\<close>

definition example_canonical_message :: string where
  "example_canonical_message =
     ''OPENCLAW_HIVEMIND_V1'' @ [CHR 0x0A] @ ''agent-001'' @ [CHR 0x0A] @ example_pubkey @
     [CHR 0x0A] @ ''n1'' @ [CHR 0x0A] @ ''h1'' @ [CHR 0x0A] @ ''T120000'' @ [CHR 0x0A] @ ''T1000''"

definition signing_platform :: platform where
  "signing_platform =
     toy_platform\<lparr> ed25519_verify :=
       (\<lambda>m sg pk. m = encode example_canonical_message \<and> length sg = 64 \<and> length pk = 32) \<rparr>"

text \<open>The state after \<open>example_challenge_body\<close> was answered at time 0 with the nonce \<open>n1\<close>.\<close>

definition example_challenged :: ServerState where
  "example_challenged =
     empty_state\<lparr> challenges := [''n1'' \<mapsto>
       \<lparr> ch_agentId = ''agent-001'', ch_pubkey = example_pubkey, ch_nonce = ''n1'',
         ch_hiveId = ''h1'', ch_expiresAt = ''T120000'' \<rparr>] \<rparr>"

definition example_session :: Session where
  "example_session =
     \<lparr> se_agentId = ''agent-001'', se_pubkey = example_pubkey, se_hiveId = ''h1'',
       se_expiresAt = 86401000 \<rparr>"

definition numbered_message :: "nat \<Rightarrow> HiveMessage" where
  "numbered_message i =
     \<lparr> uid = replicate i (CHR ''u''), ts = ''T1000'', createdAtMs = Finite 1000,
       agentId = Some ''agent-001'', hiveId = ''h1'', content = Some ''hello'',
       channel = ''default'', source = Local, id_n = i \<rparr>"

text \<open>A server holding one session and the 201 messages of hive \<open>h1\<close> numbered from 1.\<close>

definition crowded_state :: ServerState where
  "crowded_state =
     \<lparr> challenges = Map.empty, sessions = [''tok'' \<mapsto> example_session],
       messages = map numbered_message [1..<202],
       messageIds = (\<lambda>i. replicate i (CHR ''u'')) ` {1..<202},
       peerCursors = Map.empty, nextMessageId = 202 \<rparr>"

text \<open>A server holding the single message \<open>numbered_message 1\<close>, created at 1000.\<close>

definition one_message_state :: ServerState where
  "one_message_state =
     empty_state\<lparr> messages := [numbered_message 1], messageIds := {''u''}, nextMessageId := 2 \<rparr>"

section \<open>Auxiliary notions for the gossip properties\<close>

text \<open>
  The running maximum the poll loop keeps: starting from the cursor, the maximum with the
  \<open>createdAtMs\<close> of each accepted message whose \<open>createdAtMs\<close> is finite.
\<close>

definition accepted_max :: "jsnum \<Rightarrow> HiveMessage list \<Rightarrow> jsnum" where
  "accepted_max maxSeen accepted =
     fold (\<lambda>m mx. if Number_isFinite (createdAtMs m) then Math_max mx (createdAtMs m) else mx)
       accepted maxSeen"

text \<open>The records of a batch that pass the guard of the poll loop.\<close>

definition poll_eligible :: "Config \<Rightarrow> GossipRecord \<Rightarrow> bool" where
  "poll_eligible cfg msg = (r_hiveId msg = Some (HIVE_ID cfg) \<and> present (r_uid msg))"

definition well_formed_record :: GossipRecord where
  "well_formed_record =
     \<lparr> r_uid = Some ''g1'', r_ts = Some ''T1000'', r_createdAtMs = Finite 1000,
       r_agentId = Some ''agent-002'', r_hiveId = Some ''h1'', r_content = Some ''hi'',
       r_channel = None \<rparr>"

text \<open>A record without \<open>ts\<close> whose \<open>createdAtMs\<close> is beyond the last valid time value.\<close>

definition out_of_range_record :: GossipRecord where
  "out_of_range_record =
     \<lparr> r_uid = Some ''g2'', r_ts = None, r_createdAtMs = Finite 10000000000000000,
       r_agentId = Some ''agent-002'', r_hiveId = Some ''h1'', r_content = Some ''hi'',
       r_channel = None \<rparr>"

text \<open>A record that has neither \<open>agentId\<close> nor \<open>content\<close>.\<close>

definition anonymous_record :: GossipRecord where
  "anonymous_record =
     \<lparr> r_uid = Some ''g3'', r_ts = Some ''T1000'', r_createdAtMs = Finite 1000,
       r_agentId = None, r_hiveId = Some ''h1'', r_content = None, r_channel = None \<rparr>"

text \<open>A record whose uid \<open>one_message_state\<close> already holds, with a later \<open>createdAtMs\<close>.\<close>

definition duplicate_late_record :: GossipRecord where
  "duplicate_late_record =
     \<lparr> r_uid = Some ''u'', r_ts = Some ''T1000'', r_createdAtMs = Finite 9000,
       r_agentId = Some ''agent-001'', r_hiveId = Some ''h1'', r_content = Some ''hello'',
       r_channel = None \<rparr>"

definition peered_config :: Config where
  "peered_config = example_config\<lparr> GOSSIP_PEERS := [''http://b''] \<rparr>"

section \<open>Two servers polling each other\<close>

text \<open>
  What a server receives when it parses a message of a peer's feed: \<^verbatim>\<open>JSON.stringify\<close>
  writes a \<open>createdAtMs\<close> that is not finite as \<^verbatim>\<open>null\<close>, which \<^verbatim>\<open>Number\<close> reads as 0, and
  leaves out a field that is undefined.
\<close>

definition to_wire :: "HiveMessage \<Rightarrow> GossipRecord" where
  "to_wire m =
     \<lparr> r_uid = Some (uid m), r_ts = Some (ts m),
       r_createdAtMs = (if Number_isFinite (createdAtMs m) then createdAtMs m else Finite 0),
       r_agentId = agentId m, r_hiveId = Some (hiveId m), r_content = content m,
       r_channel = Some (channel m) \<rparr>"

text \<open>The header \<^verbatim>\<open>pollPeers\<close> sends: the gossip token when one is configured.\<close>

definition gossip_header :: "Config \<Rightarrow> string option" where
  "gossip_header cfg = (if GOSSIP_TOKEN cfg = [] then None else Some (GOSSIP_TOKEN cfg))"

text \<open>
  The request of \<^verbatim>\<open>pollPeers\<close> on a server configured by \<open>cfg\<close>, answered by the
  \<^verbatim>\<open>/gossip/messages\<close> handler of a peer configured by \<open>peer_cfg\<close> in the state \<open>peer_state\<close>.
  A response that is not a success makes the poll skip the peer.
\<close>

definition fetch_from ::
  "Config \<Rightarrow> Config \<Rightarrow> int \<Rightarrow> ServerState \<Rightarrow> jsnum \<Rightarrow> GossipRecord option list option" where
  "fetch_from cfg peer_cfg now peer_state sinceMs =
     (case gossip_messages_handler peer_cfg now (gossip_header cfg) (Some (HIVE_ID cfg))
             (Some sinceMs) peer_state of
        Ok (GossipFeed h t ms) \<Rightarrow> Some (map (\<lambda>m. Some (to_wire m)) ms)
      | _ \<Rightarrow> None)"

definition poll_from ::
  "platform \<Rightarrow> Config \<Rightarrow> Config \<Rightarrow> int \<Rightarrow> string \<Rightarrow> ServerState \<Rightarrow> ServerState \<Rightarrow> ServerState" where
  "poll_from P cfg peer_cfg now peer s peer_state =
     poll_peer P cfg now peer (fetch_from cfg peer_cfg now peer_state) s"

text \<open>
  One cycle of \<^verbatim>\<open>pollPeers\<close> on a server whose configured peers are all served by the
  one peer server.
\<close>

definition poll_cycle ::
  "platform \<Rightarrow> Config \<Rightarrow> Config \<Rightarrow> int \<Rightarrow> ServerState \<Rightarrow> ServerState \<Rightarrow> ServerState" where
  "poll_cycle P cfg peer_cfg now s peer_state =
     pollPeers P cfg now (\<lambda>peer. fetch_from cfg peer_cfg now peer_state) s"

text \<open>The uids a server stores for a hive.\<close>

definition hive_uids :: "ServerState \<Rightarrow> string \<Rightarrow> string set" where
  "hive_uids s h = uid ` {m \<in> set (messages s). hiveId m = h}"

text \<open>
  What \<open>storeMessage\<close> maintains from the empty state on: \<open>messageIds\<close> holds exactly the
  uids of the log, and no uid occurs twice in the log.
\<close>

definition store_ok :: "ServerState \<Rightarrow> bool" where
  "store_ok s = (messageIds s = uid ` set (messages s) \<and> distinct (map uid (messages s)))"

text \<open>
  The condition under which one poll of \<open>peer_state\<close> by \<open>s\<close> catches up: the messages of
  the hive that the peer holds all have a uid, and those that \<open>s\<close> lacks are not older
  than the cursor \<open>s\<close> keeps for the peer; and a uid names messages of one hive only.
\<close>

definition cursor_behind :: "string \<Rightarrow> string \<Rightarrow> ServerState \<Rightarrow> ServerState \<Rightarrow> bool" where
  "cursor_behind h peer s peer_state =
     ((\<forall>m\<in>set (messages peer_state). hiveId m = h \<longrightarrow> uid m \<noteq> []) \<and>
      (\<forall>m\<in>set (messages peer_state). hiveId m = h \<and> uid m \<notin> messageIds s
          \<longrightarrow> js_ge (createdAtMs m) (since_or_zero (Some (cursor_of s peer)))) \<and>
      (\<forall>m\<in>set (messages peer_state). \<forall>m'\<in>set (messages s).
          uid m = uid m' \<longrightarrow> hiveId m = hiveId m'))"

text \<open>
  A run of the two servers A and B. Each serves its requests and resumes its poll
  iterations (an \<open>event\<close> of its own), and runs poll cycles against the other: \<open>Poll_A\<close>
  and \<open>Poll_B\<close> are whole cycles, each run to its end on the answer the other server gives
  at that moment.
\<close>

datatype action =
    At_A int event
  | At_B int event
  | Poll_A int
  | Poll_B int

fun act ::
  "platform \<Rightarrow> Config \<Rightarrow> Config \<Rightarrow> action \<Rightarrow> ServerState \<times> ServerState
     \<Rightarrow> ServerState \<times> ServerState" where
  "act P cfgA cfgB (At_A now e) (A, B) = (step P cfgA now e A, B)"
| "act P cfgA cfgB (At_B now e) (A, B) = (A, step P cfgB now e B)"
| "act P cfgA cfgB (Poll_A now) (A, B) = (poll_cycle P cfgA cfgB now A B, B)"
| "act P cfgA cfgB (Poll_B now) (A, B) = (A, poll_cycle P cfgB cfgA now B A)"

definition play ::
  "platform \<Rightarrow> Config \<Rightarrow> Config \<Rightarrow> action list \<Rightarrow> ServerState \<times> ServerState
     \<Rightarrow> ServerState \<times> ServerState" where
  "play P cfgA cfgB actions st = fold (act P cfgA cfgB) actions st"


text \<open>
  A pushed record is timely for the server that receives it when its \<open>createdAtMs\<close> is a
  finite number, not negative and not below the \<open>createdAtMs\<close> of any message the server
  already stores. A run is timely when every record of every push is timely for the
  receiving server as it is when the push arrives, and the two servers poll nobody but each
  other, in whole cycles (no event of a run is the resumption of another poll iteration).
\<close>

fun timely :: "ServerState \<Rightarrow> GossipRecord option \<Rightarrow> bool" where
  "timely s None = True"
| "timely s (Some r) =
     (Number_isFinite (r_createdAtMs r) \<and> js_le (Finite 0) (r_createdAtMs r) \<and>
      list_all (\<lambda>m. js_le (createdAtMs m) (r_createdAtMs r)) (messages s))"

fun timely_event :: "ServerState \<Rightarrow> event \<Rightarrow> bool" where
  "timely_event s (Gossip_push_request header body) =
     list_all (timely s) (case body of None \<Rightarrow> [] | Some ms \<Rightarrow> ms)"
| "timely_event s (Poll_resumed peer sinceMs fetched) = False"
| "timely_event s _ = True"

fun timely_action :: "action \<Rightarrow> ServerState \<times> ServerState \<Rightarrow> bool" where
  "timely_action (At_A now e) (A, B) = timely_event A e"
| "timely_action (At_B now e) (A, B) = timely_event B e"
| "timely_action _ st = True"

fun timely_play ::
  "platform \<Rightarrow> Config \<Rightarrow> Config \<Rightarrow> action list \<Rightarrow> ServerState \<times> ServerState \<Rightarrow> bool" where
  "timely_play P cfgA cfgB [] st = True"
| "timely_play P cfgA cfgB (a # rest) st =
     (timely_action a st \<and> timely_play P cfgA cfgB rest (act P cfgA cfgB a st))"




text \<open>
  Two servers of hive \<open>h1\<close>, each with the other as its only peer, and a run in which B
  is pushed a message created at 9000, A polls B, and B is then pushed a message created at
  1000.
\<close>

definition config_A :: Config where
  "config_A = example_config\<lparr> GOSSIP_PEERS := [''http://b''] \<rparr>"

definition config_B :: Config where
  "config_B = example_config\<lparr> GOSSIP_PEERS := [''http://a''] \<rparr>"

definition late_record :: GossipRecord where
  "late_record =
     \<lparr> r_uid = Some ''g9'', r_ts = Some ''T9000'', r_createdAtMs = Finite 9000,
       r_agentId = Some ''agent-002'', r_hiveId = Some ''h1'', r_content = Some ''hi'',
       r_channel = None \<rparr>"


definition run_B1 :: ServerState where
  "run_B1 = snd (gossip_push_handler toy_platform config_B 9000 None
                   (Some [Some late_record]) empty_state)"

definition run_A1 :: ServerState where
  "run_A1 = poll_cycle toy_platform config_A config_B 9500 empty_state run_B1"

definition run_B2 :: ServerState where
  "run_B2 = snd (gossip_push_handler toy_platform config_B 9600 None
                   (Some [Some well_formed_record]) run_B1)"



text \<open>The messages these steps store: at B by the pushes, at A by the poll.\<close>

definition stored_late :: HiveMessage where
  "stored_late =
     \<lparr> uid = ''g9'', ts = ''T9000'', createdAtMs = Finite 9000, agentId = Some ''agent-002'',
       hiveId = ''h1'', content = Some ''hi'', channel = ''default'', source = Gossip, id_n = 1 \<rparr>"

definition stored_early :: HiveMessage where
  "stored_early =
     \<lparr> uid = ''g1'', ts = ''T1000'', createdAtMs = Finite 1000, agentId = Some ''agent-002'',
       hiveId = ''h1'', content = Some ''hi'', channel = ''default'', source = Gossip, id_n = 2 \<rparr>"

definition pulled_late :: HiveMessage where
  "pulled_late = stored_late\<lparr> id_n := 0 \<rparr>"

section \<open>Signature verifier\<close>

lemma verifyMessage_false: "verifyMessage P m s k = Inr False"
  by (simp add: verifyMessage_def strict_neq_def nacl_sign_detached_signatureLength_def
      split: option.splits)

lemma verifyEd25519Base64_false: "verifyEd25519Base64 P m s k = Inr False"
  by (simp add: verifyEd25519Base64_def strict_neq_def nacl_sign_detached_signatureLength_def
      split: option.splits)

text \<open>
  C8. The signature verifier is total and returns a boolean for every triple of message,
  signature and public key: it never propagates an exception, and a decoding failure or a
  decoded signature or key of the wrong length makes it return false. This holds for
  \<open>verifyMessage\<close> (base64 signature, base58 key) and for \<open>verifyEd25519Base64\<close> (both base64).
\<close>

theorem verifier_total_false_on_bad_input:
  "(\<exists>b. verifyMessage P m s k = Inr b) \<and>
   (\<exists>b. verifyEd25519Base64 P m s k = Inr b) \<and>
   (base64_decode P s = None \<or> bs58_decode P k = None \<longrightarrow> verifyMessage P m s k = Inr False) \<and>
   (base64_decode P s = None \<or> base64_decode P k = None
      \<longrightarrow> verifyEd25519Base64 P m s k = Inr False) \<and>
   (\<forall>sg pk. base64_decode P s = Some sg \<and> bs58_decode P k = Some pk \<and>
        (length sg \<noteq> crypto_sign_BYTES \<or> length pk \<noteq> publicKeyLength)
      \<longrightarrow> verifyMessage P m s k = Inr False) \<and>
   (\<forall>sg pk. base64_decode P s = Some sg \<and> base64_decode P k = Some pk \<and>
        (length sg \<noteq> crypto_sign_BYTES \<or> length pk \<noteq> publicKeyLength)
      \<longrightarrow> verifyEd25519Base64 P m s k = Inr False)"
  by (auto simp: verifyMessage_false verifyEd25519Base64_false)

theorem verifier_total_false_on_bad_input_witness:
  "base64_decode toy_platform ''!'' = None \<and>
   verifyMessage toy_platform ''msg'' ''!'' ''key'' = Inr False \<and>
   verifyEd25519Base64 toy_platform ''msg'' ''!'' ''key'' = Inr False \<and>
   base64_decode toy_platform ''sig'' = Some [0, 0, 0] \<and>
   bs58_decode toy_platform ''key'' = Some [0, 0, 0] \<and>
   length [0, 0, 0 :: 8 word] \<noteq> crypto_sign_BYTES \<and>
   verifyMessage toy_platform ''msg'' ''sig'' ''key'' = Inr False \<and>
   verifyEd25519Base64 toy_platform ''msg'' ''sig'' ''key'' = Inr False"
proof -
  have d1: "base64_decode toy_platform ''!'' = None"
    by (simp add: toy_platform_def)
  have d2: "base64_decode toy_platform ''sig'' = Some [0, 0, 0]"
    and d3: "bs58_decode toy_platform ''key'' = Some [0, 0, 0]"
    and d4: "base64_decode toy_platform ''key'' = Some [0, 0, 0]"
    by (simp_all add: toy_platform_def numeral_3_eq_3)
  have d5: "length [0, 0, 0 :: 8 word] \<noteq> crypto_sign_BYTES"
    by (simp add: crypto_sign_BYTES_def)
  from verifier_total_false_on_bad_input [of toy_platform "''msg''" "''!''" "''key''"] d1
  have a: "verifyMessage toy_platform ''msg'' ''!'' ''key'' = Inr False"
    and b: "verifyEd25519Base64 toy_platform ''msg'' ''!'' ''key'' = Inr False"
    by simp_all
  from verifier_total_false_on_bad_input [of toy_platform "''msg''" "''sig''" "''key''"] d2 d3 d4 d5
  have c: "verifyMessage toy_platform ''msg'' ''sig'' ''key'' = Inr False"
    and d: "verifyEd25519Base64 toy_platform ''msg'' ''sig'' ''key'' = Inr False"
    by blast+
  from a b c d d1 d2 d3 d5 show ?thesis by simp
qed

section \<open>Message store\<close>

lemma storeMessage_dup:
  "uid input \<in> messageIds s \<Longrightarrow> storeMessage i input s = (None, s)"
  by (simp add: storeMessage_def)

lemma storeMessage_fresh:
  "uid input \<notin> messageIds s \<Longrightarrow>
   \<exists>m. storeMessage i input s =
     (Some m, s\<lparr> nextMessageId := nextMessageId s + 1,
               messageIds := insert (uid input) (messageIds s),
               messages := messages s @ [m] \<rparr>) \<and> MessageFields.truncate m = input"
  by (simp add: storeMessage_def Let_def MessageFields.truncate_def)

lemma length_update_fresh:
  "k \<notin> fst ` set al \<Longrightarrow> length (AList.update k v al) = Suc (length al)"
  by (induction al) auto

lemma worker_fresh_key:
  "list_all (\<lambda>(k, m). k < (n::nat)) al \<Longrightarrow> n \<notin> fst ` set al"
  by (induction al) auto

lemma list_all_update:
  "list_all (\<lambda>(k, m). k < n) al \<Longrightarrow> list_all (\<lambda>(k, m). k < Suc n) (AList.update n v al)"
  by (induction al) auto

lemma storeMessage_worker_dup:
  "uid_stored_worker w (uid input) \<Longrightarrow> storeMessage_worker input w = (None, w)"
  by (simp add: storeMessage_worker_def)

lemma storeMessage_worker_fresh:
  assumes fresh: "\<not> uid_stored_worker w (uid input)" and ok: "worker_store_ok w"
  shows "\<exists>m w1. storeMessage_worker input w = (Some m, w1) \<and> MessageFields.truncate m = input \<and>
           map_of (w_msgs w1) (id_n m) = Some m \<and> uid_stored_worker w1 (uid input) \<and>
           length (w_msgs w1) = length (w_msgs w) + 1 \<and> worker_store_ok w1"
proof -
  define n where "n = (case w_nextMessageId w of None \<Rightarrow> 1 | Some c \<Rightarrow> c)"
  from ok have pos: "0 < n" and below: "list_all (\<lambda>(k, m). k < n) (w_msgs w)"
    by (simp_all add: worker_store_ok_def n_def Let_def)
  define m :: HiveMessage where
    "m = \<lparr> uid = uid input, ts = ts input, createdAtMs = createdAtMs input,
           agentId = agentId input, hiveId = hiveId input, content = content input,
           channel = channel input, source = source input, id_n = n \<rparr>"
  define w1 where
    "w1 = w\<lparr> w_nextMessageId := Some (n + 1), w_msgs := AList.update n m (w_msgs w),
             w_uids := (w_uids w)(uid input \<mapsto> n) \<rparr>"
  have first: "storeMessage_worker input w = (Some m, w1)"
    using fresh
    by (simp add: storeMessage_worker_def nextMessageId_worker_def Let_def n_def m_def w1_def)
  have stored: "uid_stored_worker w1 (uid input)"
    using pos by (simp add: uid_stored_worker_def w1_def)
  have len: "length (w_msgs w1) = length (w_msgs w) + 1"
    using worker_fresh_key [OF below] by (simp add: w1_def length_update_fresh)
  have ok1: "worker_store_ok w1"
    using list_all_update [OF below] by (simp add: worker_store_ok_def w1_def)
  have tr: "MessageFields.truncate m = input"
    by (simp add: m_def MessageFields.truncate_def)
  have look: "map_of (w_msgs w1) (id_n m) = Some m"
    by (simp add: w1_def m_def update_conv')
  from first stored len ok1 tr look show ?thesis by blast
qed

text \<open>
  C2. Appending is idempotent on the uid, in every state. After a call of \<open>storeMessage\<close>,
  a second call with the same uid returns nothing and leaves the whole state as it is. The
  first call returns the stored message, whose fields are those of the candidate, and the
  log grows by exactly one message, when the store does not hold the uid yet; when it
  does, the first call itself returns nothing and changes nothing. The same holds for the
  worker's \<open>storeMessage_worker\<close>, whose id counter in storage is positive and above the ids
  in use (which the empty storage satisfies and \<open>storeMessage_worker\<close> preserves).
\<close>

theorem append_idempotent_on_uid:
  assumes same: "uid input' = uid input"
    and first: "storeMessage i input s = (r1, s1)"
    and first_w: "storeMessage_worker input w = (q1, w1)"
    and ok: "worker_store_ok w"
  shows "storeMessage j input' s1 = (None, s1) \<and>
         (if uid input \<in> messageIds s then r1 = None \<and> s1 = s
          else (\<exists>m. r1 = Some m \<and> MessageFields.truncate m = input \<and>
                     messages s1 = messages s @ [m]) \<and>
               length (messages s1) = length (messages s) + 1) \<and>
         storeMessage_worker input' w1 = (None, w1) \<and>
         (if uid_stored_worker w (uid input) then q1 = None \<and> w1 = w
          else (\<exists>m. q1 = Some m \<and> MessageFields.truncate m = input \<and>
                     map_of (w_msgs w1) (id_n m) = Some m) \<and>
               length (w_msgs w1) = length (w_msgs w) + 1) \<and>
         worker_store_ok w1"
proof -
  have server: "storeMessage j input' s1 = (None, s1) \<and>
         (if uid input \<in> messageIds s then r1 = None \<and> s1 = s
          else (\<exists>m. r1 = Some m \<and> MessageFields.truncate m = input \<and>
                     messages s1 = messages s @ [m]) \<and>
               length (messages s1) = length (messages s) + 1)"
  proof (cases "uid input \<in> messageIds s")
    case True
    with first storeMessage_dup [OF True, of i] have "r1 = None" "s1 = s" by simp_all
    moreover from True same have "storeMessage j input' s = (None, s)"
      by (simp add: storeMessage_dup)
    ultimately show ?thesis using True by simp
  next
    case False
    from storeMessage_fresh [OF False, of i] first obtain m where
      m: "r1 = Some m" "MessageFields.truncate m = input"
        "s1 = s\<lparr> nextMessageId := nextMessageId s + 1,
                  messageIds := insert (uid input) (messageIds s),
                  messages := messages s @ [m] \<rparr>"
      by auto
    have "storeMessage j input' s1 = (None, s1)"
      by (rule storeMessage_dup) (simp add: m(3) same)
    with m False show ?thesis by simp
  qed
  have worker: "storeMessage_worker input' w1 = (None, w1) \<and>
         (if uid_stored_worker w (uid input) then q1 = None \<and> w1 = w
          else (\<exists>m. q1 = Some m \<and> MessageFields.truncate m = input \<and>
                     map_of (w_msgs w1) (id_n m) = Some m) \<and>
               length (w_msgs w1) = length (w_msgs w) + 1) \<and>
         worker_store_ok w1"
  proof (cases "uid_stored_worker w (uid input)")
    case True
    with first_w storeMessage_worker_dup [OF True] have "q1 = None" "w1 = w" by simp_all
    moreover from True same have "storeMessage_worker input' w = (None, w)"
      by (simp add: storeMessage_worker_dup)
    ultimately show ?thesis using True ok by simp
  next
    case False
    from storeMessage_worker_fresh [OF False ok] first_w obtain m where
      m: "q1 = Some m" "MessageFields.truncate m = input"
        "map_of (w_msgs w1) (id_n m) = Some m" "uid_stored_worker w1 (uid input)"
        "length (w_msgs w1) = length (w_msgs w) + 1" "worker_store_ok w1"
      by auto
    have "storeMessage_worker input' w1 = (None, w1)"
      by (rule storeMessage_worker_dup) (simp add: m(4) same)
    with m False show ?thesis by simp
  qed
  from server worker show ?thesis by simp
qed

theorem append_idempotent_on_uid_witness:
  "worker_store_ok empty_worker \<and>
   (\<exists>m s1. storeMessage None example_fields empty_state = (Some m, s1) \<and>
            storeMessage None example_fields s1 = (None, s1) \<and>
            length (messages s1) = length (messages empty_state) + 1) \<and>
   (\<exists>m w1. storeMessage_worker example_fields empty_worker = (Some m, w1) \<and>
            storeMessage_worker example_fields w1 = (None, w1) \<and>
            length (w_msgs w1) = length (w_msgs empty_worker) + 1)"
proof -
  have h1: "uid example_fields \<notin> messageIds empty_state"
    by (simp add: empty_state_def)
  have h2: "\<not> uid_stored_worker empty_worker (uid example_fields)"
    by (simp add: empty_worker_def uid_stored_worker_def)
  have h3: "worker_store_ok empty_worker"
    by (simp add: empty_worker_def worker_store_ok_def)
  obtain r1 s1 where a: "storeMessage None example_fields empty_state = (r1, s1)"
    by (cases "storeMessage None example_fields empty_state")
  obtain q1 w1 where b: "storeMessage_worker example_fields empty_worker = (q1, w1)"
    by (cases "storeMessage_worker example_fields empty_worker")
  from append_idempotent_on_uid [OF refl a b h3, of None] h1 h2 a b h3
  show ?thesis by auto
qed

section \<open>Challenge and join\<close>

lemma device_proof_step_eq:
  "device_proof_step P cfg now b =
     (if device_proof_needed cfg b \<and> \<not> device_proof_complete b
      then Some (rejection DeviceProofFields)
      else if device_proof_needed cfg b \<and> \<not> device_proof_valid P cfg now b
      then Some (rejection DeviceProofValid)
      else None)"
  by (cases "openclaw_device_public_key b"; cases "openclaw_device_signature b";
      cases "openclaw_device_nonce b"; cases "openclaw_device_signed_at b")
     (auto simp: device_proof_step_def device_proof_needed_def device_proof_complete_def
        device_proof_valid_def verifyOpenClawDeviceProof_def verifyEd25519Base64_false
        unauthorized_def Let_def split: option.splits)

lemma signature_never_valid: "\<not> signature_valid P c b"
  by (simp add: signature_valid_def verifyMessage_false)

lemma join_handler_stored:
  assumes flds: "agent_id b = Some a" "pubkey b = Some p" "nonce b = Some n"
      "signature b = Some g" "timestamp b = Some t"
    and ne: "a \<noteq> []" "p \<noteq> []" "n \<noteq> []" "g \<noteq> []" "t \<noteq> []"
    and c: "challenges s n = Some c"
  shows "join_handler P cfg now token (Some b) s =
     (if ch_agentId c \<noteq> a \<or> ch_pubkey c \<noteq> p then (rejection IdentityBinding, s)
      else if hive_id b \<noteq> None \<and> hive_id b \<noteq> Some (ch_hiveId c) then (rejection HiveBinding, s)
      else if expires_at b \<noteq> None \<and> expires_at b \<noteq> Some (ch_expiresAt c)
      then (rejection ExpiryBinding, s)
      else if \<not> challenge_live P now c
      then (rejection ChallengeExpiry, s\<lparr> challenges := (challenges s)(n := None) \<rparr>)
      else
        (case Date_parse P t of
           None \<Rightarrow> (rejection TimestampParse, s)
         | Some tm \<Rightarrow>
             if MAX_CLOCK_SKEW_MS < \<bar>now - tm\<bar> then (rejection ClockSkew, s)
             else (case device_proof_step P cfg now b of
                     Some r \<Rightarrow> (r, s)
                   | None \<Rightarrow> (rejection SignatureCheck, s))))"
proof -
  have h: "(ch_hiveId c \<noteq> (case hive_id b of None \<Rightarrow> ch_hiveId c | Some h \<Rightarrow> h))
           = (hive_id b \<noteq> None \<and> hive_id b \<noteq> Some (ch_hiveId c))"
    by (cases "hive_id b") auto
  have e: "(ch_expiresAt c \<noteq> (case expires_at b of None \<Rightarrow> ch_expiresAt c | Some e \<Rightarrow> e))
           = (expires_at b \<noteq> None \<and> expires_at b \<noteq> Some (ch_expiresAt c))"
    by (cases "expires_at b") auto
  have l: "(case Date_parse P (ch_expiresAt c) of None \<Rightarrow> True | Some x \<Rightarrow> x < now)
           = (\<not> challenge_live P now c)"
    by (cases "Date_parse P (ch_expiresAt c)") (auto simp: challenge_live_def)
  show ?thesis
    unfolding join_handler_def
    by (simp only: flds c h e l option.case prod.case present.simps ne not_False_eq_True
        simp_thms if_False if_True verifyMessage_false sum.case Let_def unauthorized_def
        badRequest_def rejection.simps)
qed


lemma required_fieldsE:
  assumes "required_fields b"
  obtains a p n g t where "agent_id b = Some a" "pubkey b = Some p" "nonce b = Some n"
      "signature b = Some g" "timestamp b = Some t"
      "a \<noteq> []" "p \<noteq> []" "n \<noteq> []" "g \<noteq> []" "t \<noteq> []"
  using assms
  by (cases "agent_id b"; cases "pubkey b"; cases "nonce b"; cases "signature b";
      cases "timestamp b") (auto simp: required_fields_def)

lemma join_handler_failed:
  assumes req: "required_fields b"
    and failed: "failed_precondition P cfg now b s = Some f"
  shows "join_handler P cfg now token (Some b) s =
           (rejection f,
            if f = ChallengeExpiry
            then s\<lparr> challenges := (challenges s)(field (nonce b) := None) \<rparr> else s)"
proof -
  from req obtain a p n g t where
    flds: "agent_id b = Some a" "pubkey b = Some p" "nonce b = Some n" "signature b = Some g"
      "timestamp b = Some t"
    and ne: "a \<noteq> []" "p \<noteq> []" "n \<noteq> []" "g \<noteq> []" "t \<noteq> []"
    by (rule required_fieldsE)
  define out where "out = (\<lambda>r. case r of
      None \<Rightarrow> (Error 0 [], s)
    | Some f \<Rightarrow> (rejection f,
                if f = ChallengeExpiry then s\<lparr> challenges := (challenges s)(n := None) \<rparr> else s))"
  have out: "out (Some x) = (rejection x,
                if x = ChallengeExpiry then s\<lparr> challenges := (challenges s)(n := None) \<rparr> else s)"
    for x by (simp add: out_def)
  have "join_handler P cfg now token (Some b) s = out (failed_precondition P cfg now b s)"
  proof (cases "challenges s n")
    case None
    with flds ne show ?thesis
      by (simp add: join_handler_def failed_precondition_def unauthorized_def out)
  next
    case (Some c)
    have ids: "(Some a \<noteq> Some (ch_agentId c) \<or> Some p \<noteq> Some (ch_pubkey c))
               = (ch_agentId c \<noteq> a \<or> ch_pubkey c \<noteq> p)"
      by auto
    show ?thesis
      unfolding join_handler_stored [OF flds ne Some] failed_precondition_def
      by (simp only: flds field.simps Some option.case ids device_proof_step_eq
          signature_never_valid not_False_eq_True if_True if_False
          if_distrib [of out] option.case_distrib [of out] out
          if_distrib [of "\<lambda>r. case r of None \<Rightarrow> (rejection SignatureCheck, s) | Some r \<Rightarrow> (r, s)"]
          precondition.distinct simp_thms refl cong: if_cong option.case_cong)
  qed
  with failed flds(3) show ?thesis by (simp add: out)
qed

lemma failed_precondition_total:
  "failed_precondition P cfg now b s \<noteq> None"
  by (simp add: failed_precondition_def signature_never_valid split: option.splits)

lemma rejection_not_Ok: "rejection f \<noteq> Ok p"
  by (cases f) simp_all

lemma join_handler_never_ok:
  "(\<forall>p. fst (join_handler P cfg now token body s) \<noteq> Ok p) \<and>
   sessions (snd (join_handler P cfg now token body s)) = sessions s"
proof (cases "\<exists>b. body = Some b \<and> required_fields b")
  case False
  then have "join_handler P cfg now token body s
             = (badRequest ''agent_id, pubkey, nonce, signature, timestamp are required'', s)"
    by (cases body) (auto simp: join_handler_def required_fields_def)
  then show ?thesis by (simp add: badRequest_def)
next
  case True
  then obtain b where b: "body = Some b" "required_fields b" by blast
  from failed_precondition_total [of P cfg now b s] obtain f where
    "failed_precondition P cfg now b s = Some f" by auto
  from join_handler_failed [OF b(2) this, of token] b(1) show ?thesis
    by (simp add: rejection_not_Ok)
qed


lemma trunc_of_int [simp]: "trunc (of_int t) = t"
  by (simp add: trunc_def)

lemma Date_toISOString_of_ms:
  "\<bar>t\<bar> \<le> 8640000000000000 \<Longrightarrow> Date_toISOString P (of_ms t) = Inr (iso_format P t)"
proof -
  assume a: "\<bar>t\<bar> \<le> 8640000000000000"
  have "\<bar>(of_int t :: rat)\<bar> = of_int \<bar>t\<bar>" by simp
  also have "\<dots> \<le> of_int 8640000000000000" using a by (simp only: of_int_le_iff)
  finally have "\<bar>(of_int t :: rat)\<bar> \<le> MAX_TIME_VALUE" by (simp add: MAX_TIME_VALUE_def)
  then show ?thesis by (simp add: of_ms_def)
qed

lemma toy_dates:
  "Date_parse toy_platform ''T120000'' = Some 120000"
  "Date_parse toy_platform ''T1000'' = Some 1000"
  "Date_parse toy_platform ''not-a-date'' = None"
  "iso_format toy_platform 120000 = ''T120000''"
  by (simp_all add: toy_platform_def)

lemma signing_dates:
  "Date_parse signing_platform = Date_parse toy_platform"
  "iso_format signing_platform = iso_format toy_platform"
  "bs58_decode signing_platform = bs58_decode toy_platform"
  "base64_decode signing_platform = base64_decode toy_platform"
  by (simp_all add: signing_platform_def)

lemma example_join_body_fields:
  "agent_id example_join_body = Some ''agent-001''"
  "pubkey example_join_body = Some example_pubkey"
  "nonce example_join_body = Some ''n1''"
  "signature example_join_body = Some example_signature"
  "timestamp example_join_body = Some ''T1000''"
  "hive_id example_join_body = Some ''h1''"
  "expires_at example_join_body = Some ''T120000''"
  "openclaw_device_public_key example_join_body = None"
  "openclaw_device_signature example_join_body = None"
  "openclaw_device_nonce example_join_body = None"
  "openclaw_device_signed_at example_join_body = None"
  by (simp_all add: example_join_body_def)

lemma example_nonempty: "example_pubkey \<noteq> []" "example_signature \<noteq> []"
  by (simp_all add: example_pubkey_def example_signature_def)

lemma example_required: "required_fields example_join_body"
  by (simp add: required_fields_def example_join_body_fields example_nonempty)

lemma example_challenged_n1:
  "challenges example_challenged ''n1'' =
     Some \<lparr> ch_agentId = ''agent-001'', ch_pubkey = example_pubkey, ch_nonce = ''n1'',
            ch_hiveId = ''h1'', ch_expiresAt = ''T120000'' \<rparr>"
  by (simp add: example_challenged_def)

lemma example_no_device: "\<not> device_proof_needed example_config example_join_body"
  by (simp add: device_proof_needed_def example_config_def example_join_body_fields)

text \<open>
  C4 (as amended). A join request that has its required fields and fails a precondition
  is rejected with the response of the first precondition it fails: 401, except for a
  timestamp that does not parse, which gets 400. The state, and so the stored challenge,
  is left as it is, with the single exception of the explicit expiry check, which deletes
  the challenge.
\<close>

theorem join_rejects_failed_precondition:
  assumes "required_fields b"
    and "failed_precondition P cfg now b s = Some f"
  shows "join_handler P cfg now token (Some b) s =
           (rejection f,
            if f = ChallengeExpiry
            then s\<lparr> challenges := (challenges s)(field (nonce b) := None) \<rparr> else s) \<and>
         (\<exists>msg. rejection f = Error (if f = TimestampParse then 400 else 401) msg)"
  using join_handler_failed [OF assms, of token] by (cases f) simp_all

theorem join_rejects_failed_precondition_witness:
  "required_fields example_join_body \<and>
   failed_precondition toy_platform example_config 200000 example_join_body example_challenged
     = Some ChallengeExpiry \<and>
   join_handler toy_platform example_config 200000 ''tok'' (Some example_join_body) example_challenged
     = (Error 401 ''challenge expired'',
        example_challenged\<lparr> challenges := (challenges example_challenged)(''n1'' := None) \<rparr>) \<and>
   required_fields (example_join_body\<lparr> agent_id := Some ''mallory'' \<rparr>) \<and>
   failed_precondition toy_platform example_config 1000
     (example_join_body\<lparr> agent_id := Some ''mallory'' \<rparr>) example_challenged
     = Some IdentityBinding \<and>
   join_handler toy_platform example_config 1000 ''tok''
     (Some (example_join_body\<lparr> agent_id := Some ''mallory'' \<rparr>)) example_challenged
     = (Error 401 ''challenge does not match agent_id or pubkey'', example_challenged)"
proof -
  have r2: "required_fields (example_join_body\<lparr> agent_id := Some ''mallory'' \<rparr>)"
    by (simp add: required_fields_def example_join_body_fields example_nonempty)
  have f1: "failed_precondition toy_platform example_config 200000 example_join_body
              example_challenged = Some ChallengeExpiry"
    by (simp add: failed_precondition_def example_join_body_fields example_challenged_n1
        challenge_live_def toy_dates)
  have f2: "failed_precondition toy_platform example_config 1000
              (example_join_body\<lparr> agent_id := Some ''mallory'' \<rparr>) example_challenged
            = Some IdentityBinding"
    by (simp add: failed_precondition_def example_join_body_fields example_challenged_n1)
  from join_rejects_failed_precondition [OF example_required f1, of "''tok''"]
    join_rejects_failed_precondition [OF r2 f2, of "''tok''"] example_required r2 f1 f2
  show ?thesis by (simp add: example_join_body_fields)
qed

text \<open>
  The claim C4 as stated fails: a join request whose timestamp does not parse fails the
  timestamp precondition and is answered with 400, not 401.
\<close>

theorem join_bad_timestamp_is_400:
  "join_handler toy_platform example_config 1000 ''tok''
     (Some (example_join_body\<lparr> timestamp := Some ''not-a-date'' \<rparr>)) example_challenged
   = (Error 400 ''timestamp must be an ISO string'', example_challenged)"
  by (simp add: join_handler_def example_join_body_def example_challenged_def empty_state_def
      toy_dates badRequest_def example_pubkey_def example_signature_def)

lemma toy_valid_pubkey: "isValidSolanaPublicKey toy_platform example_pubkey"
  by (simp add: isValidSolanaPublicKey_def toy_platform_def example_pubkey_def publicKeyLength_def)

lemma cleanup_empty: "cleanupChallenges P now empty_state = empty_state"
  by (simp add: cleanupChallenges_def empty_state_def)

lemma example_challenge_issued:
  "challenge_handler signing_platform example_config 0 ''n1'' (Some example_challenge_body)
     empty_state
   = (Ok (ChallengeIssued PROTOCOL_VERSION ''n1'' ''h1'' ''T120000''), example_challenged)"
proof -
  have v: "isValidSolanaPublicKey signing_platform example_pubkey"
    using toy_valid_pubkey by (simp add: isValidSolanaPublicKey_def signing_dates)
  have d: "Date_toISOString signing_platform (of_ms CHALLENGE_TTL_MS) = Inr ''T120000''"
    by (simp add: Date_toISOString_of_ms CHALLENGE_TTL_MS_def signing_dates toy_dates)
  have c: "challenges empty_state = Map.empty" by (simp add: empty_state_def)
  show ?thesis
    by (simp add: challenge_handler_def example_challenge_body_def example_nonempty v d
        cleanup_empty example_config_def example_challenged_def c Let_def)
qed

lemma example_lengths:
  "length example_signature = 64" "length example_pubkey = 32"
  "example_signature \<noteq> ''!''" "example_pubkey \<noteq> ''0''"
  by (simp_all add: example_signature_def example_pubkey_def)

lemma example_correctly_signed:
  "buildJoinMessage ''agent-001'' example_pubkey ''n1'' ''h1'' ''T120000'' ''T1000''
     = example_canonical_message"
  "base64_decode signing_platform example_signature = Some (replicate 64 0)"
  "bs58_decode signing_platform example_pubkey = Some (replicate 32 0)"
  "ed25519_verify signing_platform (encode example_canonical_message)
     (replicate 64 0) (replicate 32 0)"
proof -
  show "buildJoinMessage ''agent-001'' example_pubkey ''n1'' ''h1'' ''T120000'' ''T1000''
     = example_canonical_message"
    by (simp add: buildJoinMessage_def PROTOCOL_VERSION_def example_canonical_message_def)
  have "base64_decode signing_platform example_signature
          = Some (replicate (length example_signature) 0)"
    by (simp add: signing_platform_def toy_platform_def example_lengths(3))
  then show "base64_decode signing_platform example_signature = Some (replicate 64 0)"
    by (simp only: example_lengths)
  have "bs58_decode signing_platform example_pubkey = Some (replicate (length example_pubkey) 0)"
    by (simp add: signing_platform_def toy_platform_def example_lengths(4))
  then show "bs58_decode signing_platform example_pubkey = Some (replicate 32 0)"
    by (simp only: example_lengths)
  show "ed25519_verify signing_platform (encode example_canonical_message)
     (replicate 64 0) (replicate 32 0)"
    by (simp add: signing_platform_def)
qed

lemma example_join_fails_signature:
  "failed_precondition signing_platform example_config 1000 example_join_body example_challenged
     = Some SignatureCheck"
  by (simp add: failed_precondition_def example_join_body_fields example_challenged_n1
      challenge_live_def signing_dates toy_dates example_no_device signature_never_valid
      MAX_CLOCK_SKEW_MS_def)

text \<open>
  C1. A challenge followed at once by a join with a correctly signed canonical message is
  to succeed. It never does: crypto.ts compares the length of the signature with
  \<^verbatim>\<open>nacl.sign.detached.signatureLength\<close>, which is undefined, so the verifier refuses every
  signature. For the request below, whose signature the curve check accepts over the
  canonical join message, the challenge is issued and the join is answered with 401,
  invalid signature; the challenge stays stored and no session is recorded. In every state
  and for every request, \<^verbatim>\<open>/join\<close> returns no success and leaves the sessions as they are.
\<close>

theorem correctly_signed_join_is_rejected:
  "buildJoinMessage ''agent-001'' example_pubkey ''n1'' ''h1'' ''T120000'' ''T1000''
     = example_canonical_message \<and>
   base64_decode signing_platform example_signature = Some (replicate 64 0) \<and>
   bs58_decode signing_platform example_pubkey = Some (replicate 32 0) \<and>
   ed25519_verify signing_platform (encode example_canonical_message)
     (replicate 64 0) (replicate 32 0) \<and>
   challenge_handler signing_platform example_config 0 ''n1'' (Some example_challenge_body)
     empty_state
     = (Ok (ChallengeIssued PROTOCOL_VERSION ''n1'' ''h1'' ''T120000''), example_challenged) \<and>
   join_handler signing_platform example_config 1000 ''tok'' (Some example_join_body)
     example_challenged
     = (Error 401 ''invalid signature'', example_challenged) \<and>
   (\<forall>p. fst (join_handler P cfg now token body s) \<noteq> Ok p) \<and>
   sessions (snd (join_handler P cfg now token body s)) = sessions s"
  using example_correctly_signed example_challenge_issued join_handler_never_ok [of P cfg now token body s]
    join_handler_failed [OF example_required example_join_fails_signature, of "''tok''"]
  by simp

theorem correctly_signed_join_is_rejected_witness:
  "fst (join_handler signing_platform example_config 1000 ''tok'' (Some example_join_body)
          example_challenged) = Error 401 ''invalid signature'' \<and>
   challenges (snd (join_handler signing_platform example_config 1000 ''tok''
                      (Some example_join_body) example_challenged)) ''n1'' \<noteq> None \<and>
   sessions (snd (join_handler signing_platform example_config 1000 ''tok''
                    (Some example_join_body) example_challenged)) = Map.empty"
  using correctly_signed_join_is_rejected [of signing_platform example_config 1000 "''tok''"
      "Some example_join_body" example_challenged]
  by (simp add: example_challenged_def empty_state_def)

section \<open>Reading messages\<close>


lemma effective_limit_NaN [simp]: "effective_limit (Some NaN) = NaN"
  by (simp add: effective_limit_def)






lemma crowded_filter:
  "filter (\<lambda>msg. hiveId msg = ''h1'' \<and> js_gt (Finite (of_nat (id_n msg))) (Finite 0))
          (messages crowded_state) = messages crowded_state"
  unfolding crowded_state_def
  by (rule filter_True) (auto simp: numbered_message_def js_gt_def)

lemma crowded_session:
  "requireSession 1000 (Some ''tok'') crowded_state = (Some example_session, crowded_state)"
  by (simp add: requireSession_def crowded_state_def example_session_def)

text \<open>
  The clamp of the limit lets a value that is not a number through: the effective limit is
  then \<^verbatim>\<open>NaN\<close>, \<^verbatim>\<open>slice(-NaN)\<close> keeps the whole list, and in a state that holds a session and
  201 messages the handler returns all of them.
\<close>

lemma nan_limit_returns_all:
  "messages_handler 1000 (Some ''tok'') None (Some NaN) crowded_state
     = (Ok (MessageList ''h1'' (messages crowded_state)), crowded_state) \<and>
   length (messages crowded_state) = 201"
proof -
  have "se_hiveId example_session = ''h1''" by (simp add: example_session_def)
  then have "messages_handler 1000 (Some ''tok'') None (Some NaN) crowded_state
     = (Ok (MessageList ''h1'' (messages crowded_state)), crowded_state)"
    by (simp add: messages_handler_def crowded_session since_or_zero_def crowded_filter)
  moreover have "length (messages crowded_state) = 201"
    by (simp add: crowded_state_def)
  ultimately show ?thesis by simp
qed

text \<open>
  C6 (as amended). \<^verbatim>\<open>GET /gossip/messages\<close> of server.ts, for an authorised request,
  returns exactly the stored records of the requested hive whose \<open>createdAtMs\<close> is greater
  than or equal to \<^verbatim>\<open>since_ms\<close> (a \<^verbatim>\<open>since_ms\<close> that is not a number counts as 0), in the
  order of the log, oldest first. The bound is inclusive and no limit is applied.
\<close>

theorem gossip_feed_inclusive:
  assumes "authorizeGossip cfg header"
    and "hive = (case hiveParam of None \<Rightarrow> HIVE_ID cfg | Some h \<Rightarrow> h)"
  shows "\<exists>ms. gossip_messages_handler cfg now header hiveParam sinceParam s
               = Ok (GossipFeed hive now ms) \<and>
              subseq ms (messages s) \<and>
              (\<forall>m\<in>set (messages s).
                 m \<in> set ms \<longleftrightarrow> hiveId m = hive \<and> js_ge (createdAtMs m) (since_or_zero sinceParam))"
  using assms by (auto simp: gossip_messages_handler_def Let_def)

theorem gossip_feed_inclusive_witness:
  "authorizeGossip example_config None \<and>
   gossip_messages_handler example_config 5000 None (Some ''h1'') (Some (Finite 2000)) one_message_state
     = Ok (GossipFeed ''h1'' 5000 [])"
proof -
  have a: "authorizeGossip example_config None"
    by (simp add: authorizeGossip_def example_config_def)
  from gossip_feed_inclusive [OF a, of "''h1''" "Some ''h1''" 5000 "Some (Finite 2000)" one_message_state]
  obtain ms where r: "gossip_messages_handler example_config 5000 None (Some ''h1'')
        (Some (Finite 2000)) one_message_state = Ok (GossipFeed ''h1'' 5000 ms)"
    and m: "\<forall>m\<in>set (messages one_message_state).
                 m \<in> set ms \<longleftrightarrow> hiveId m = ''h1'' \<and>
                   js_ge (createdAtMs m) (since_or_zero (Some (Finite 2000)))"
    and sub: "subseq ms (messages one_message_state)"
    by auto
  from m have "numbered_message 1 \<notin> set ms"
    by (simp add: one_message_state_def numbered_message_def since_or_zero_def js_ge_def)
  with sub have "ms = []"
    by (cases ms) (auto simp: one_message_state_def subseq_Cons' dest: list_emb_set)
  with a r show ?thesis by simp
qed

text \<open>
  The claim C6 as stated fails: a record whose \<open>createdAtMs\<close> equals \<^verbatim>\<open>since_ms\<close>, so is not
  strictly greater, is returned.
\<close>

theorem gossip_feed_returns_equal_timestamp:
  "gossip_messages_handler example_config 5000 None (Some ''h1'') (Some (Finite 1000)) one_message_state
     = Ok (GossipFeed ''h1'' 5000 [numbered_message 1]) \<and>
   createdAtMs (numbered_message 1) = Finite 1000"
  by (simp add: gossip_messages_handler_def authorizeGossip_def example_config_def
      one_message_state_def numbered_message_def since_or_zero_def js_ge_def Let_def)

section \<open>Gossip\<close>

lemma storeMessage_Some:
  "storeMessage i input s = (Some m, s1) \<Longrightarrow>
   uid input \<notin> messageIds s \<and> MessageFields.truncate m = input \<and>
   messages s1 = messages s @ [m] \<and> messageIds s1 = insert (uid input) (messageIds s) \<and>
   peerCursors s1 = peerCursors s \<and> challenges s1 = challenges s \<and> sessions s1 = sessions s"
  by (auto simp: storeMessage_def Let_def MessageFields.truncate_def split: if_splits)

lemma storeMessage_None:
  "storeMessage i input s = (None, s1) \<Longrightarrow> uid input \<in> messageIds s \<and> s1 = s"
  by (auto simp: storeMessage_def Let_def split: if_splits)

lemma truncate_fields:
  "MessageFields.truncate m = input \<Longrightarrow>
   uid m = uid input \<and> createdAtMs m = createdAtMs input \<and> hiveId m = hiveId input \<and>
   agentId m = agentId input \<and> content m = content input \<and> source m = source input \<and>
   ts m = ts input \<and> channel m = channel input"
  by (auto simp: MessageFields.truncate_def)

lemma accepted_max_Cons:
  "accepted_max mx (m # acc) =
     accepted_max (if Number_isFinite (createdAtMs m) then Math_max mx (createdAtMs m) else mx) acc"
  by (simp add: accepted_max_def)

lemma accepted_max_Nil [simp]: "accepted_max mx [] = mx"
  by (simp add: accepted_max_def)

lemma poll_loop_accepted:
  "poll_loop P cfg now incoming mx s = (r, s') \<Longrightarrow>
   \<exists>acc. messages s' = messages s @ acc \<and> messageIds s' = messageIds s \<union> uid ` set acc \<and>
         peerCursors s' = peerCursors s \<and> challenges s' = challenges s \<and> sessions s' = sessions s \<and>
         (\<forall>m\<in>set acc. hiveId m = HIVE_ID cfg \<and> source m = Gossip \<and> uid m \<noteq> []) \<and>
         (\<forall>mx'. r = Inr mx' \<longrightarrow> mx' = accepted_max mx acc)"
proof (induction P cfg now incoming mx s arbitrary: r s' rule: poll_loop.induct)
  case (1 P cfg now maxSeen s)
  then show ?case by auto
next
  case (2 P cfg now rest maxSeen s)
  then show ?case by simp
next
  case (3 P cfg now msg rest maxSeen s)
  note run = "3.prems"
  show ?case
  proof (cases "r_hiveId msg \<noteq> Some (HIVE_ID cfg) \<or> \<not> present (r_uid msg)")
    case True
    with run have "poll_loop P cfg now rest maxSeen s = (r, s')" by simp
    from "3.IH"(1) [OF True this] show ?thesis .
  next
    case elig: False
    show ?thesis
    proof (cases "record_ts P now msg")
      case (Inl e)
      with elig run show ?thesis by auto
    next
      case (Inr msg_ts)
      let ?input = "gossip_fields P msg (field (r_uid msg)) (field (r_hiveId msg)) msg_ts"
      obtain st s1 where st: "(st, s1) = storeMessage (Some 0) ?input s"
        by (cases "storeMessage (Some 0) ?input s") auto
      show ?thesis
      proof (cases st)
        case None
        with st have s1: "s1 = s" by (auto dest: storeMessage_None [OF sym])
        from run elig Inr st [symmetric] None
        have "poll_loop P cfg now rest maxSeen s1 = (r, s')" by simp
        from "3.IH"(2) [OF elig Inr st None this] s1
        show ?thesis by simp
      next
        case (Some stored)
        from st Some have facts: "MessageFields.truncate stored = ?input"
          "messages s1 = messages s @ [stored]"
          "messageIds s1 = insert (uid ?input) (messageIds s)"
          "peerCursors s1 = peerCursors s" "challenges s1 = challenges s" "sessions s1 = sessions s"
          by (auto dest: storeMessage_Some [OF sym])
        note tf = truncate_fields [OF facts(1)]
        let ?mx = "if Number_isFinite (createdAtMs stored)
                   then Math_max maxSeen (createdAtMs stored) else maxSeen"
        from run elig Inr st [symmetric] Some
        have run': "poll_loop P cfg now rest ?mx s1 = (r, s')" by simp
        from "3.IH"(3) [OF elig Inr st Some run']
        obtain acc where acc: "messages s' = messages s1 @ acc"
          "messageIds s' = messageIds s1 \<union> uid ` set acc"
          "peerCursors s' = peerCursors s1" "challenges s' = challenges s1" "sessions s' = sessions s1"
          "\<forall>m\<in>set acc. hiveId m = HIVE_ID cfg \<and> source m = Gossip \<and> uid m \<noteq> []"
          "\<forall>mx'. r = Inr mx' \<longrightarrow> mx' = accepted_max ?mx acc"
          by blast
        have props: "hiveId stored = HIVE_ID cfg \<and> source stored = Gossip \<and> uid stored \<noteq> []"
          using elig tf by (cases "r_uid msg"; cases "r_hiveId msg") (auto simp: gossip_fields_def)
        have "messages s' = messages s @ (stored # acc)" using acc(1) facts(2) by simp
        moreover have "messageIds s' = messageIds s \<union> uid ` set (stored # acc)"
          using acc(2) facts(3) tf by auto
        moreover have "\<forall>m\<in>set (stored # acc). hiveId m = HIVE_ID cfg \<and> source m = Gossip \<and> uid m \<noteq> []"
          using acc(6) props by simp
        moreover have "\<forall>mx'. r = Inr mx' \<longrightarrow> mx' = accepted_max maxSeen (stored # acc)"
          using acc(7) by (simp add: accepted_max_Cons)
        ultimately show ?thesis using acc(3-5) facts(4-6) by metis
      qed
    qed
  qed
qed


lemma js_lt_trans: "js_lt a b \<Longrightarrow> js_lt b c \<Longrightarrow> js_lt a c"
  by (cases a; cases b; cases c) auto

lemma js_le_trans: "js_le a b \<Longrightarrow> js_le b c \<Longrightarrow> js_le a c"
  by (cases a; cases b; cases c) auto

lemma js_le_refl: "a \<noteq> NaN \<Longrightarrow> js_le a a"
  by (cases a) auto

lemma js_lt_not_NaN: "js_lt a b \<Longrightarrow> a \<noteq> NaN \<and> b \<noteq> NaN"
  by (cases a; cases b) auto

lemma Math_max_finite:
  "Number_isFinite b \<Longrightarrow> Math_max a b = a \<or> Math_max a b = b"
  by (cases a; cases b) auto

lemma Math_max_upper:
  "a \<noteq> NaN \<Longrightarrow> Number_isFinite b \<Longrightarrow>
   Math_max a b \<noteq> NaN \<and> js_le a (Math_max a b) \<and> js_le b (Math_max a b)"
  by (cases a; cases b) auto

lemma accepted_max_choice:
  "accepted_max mx acc = mx \<or>
   (\<exists>m\<in>set acc. Number_isFinite (createdAtMs m) \<and> accepted_max mx acc = createdAtMs m)"
proof (induction acc arbitrary: mx)
  case Nil
  show ?case by simp
next
  case (Cons m acc)
  show ?case
  proof (cases "Number_isFinite (createdAtMs m)")
    case False
    with Cons [of mx] show ?thesis by (auto simp: accepted_max_Cons)
  next
    case True
    from Cons [of "Math_max mx (createdAtMs m)"] Math_max_finite [OF True, of mx] True
    show ?thesis by (auto simp: accepted_max_Cons)
  qed
qed

lemma accepted_max_upper:
  "mx \<noteq> NaN \<Longrightarrow>
   accepted_max mx acc \<noteq> NaN \<and> js_le mx (accepted_max mx acc) \<and>
   (\<forall>m\<in>set acc. Number_isFinite (createdAtMs m) \<longrightarrow> js_le (createdAtMs m) (accepted_max mx acc))"
proof (induction acc arbitrary: mx)
  case Nil
  then show ?case by (simp add: js_le_refl)
next
  case (Cons m acc)
  show ?case
  proof (cases "Number_isFinite (createdAtMs m)")
    case False
    with Cons.IH [OF Cons.prems] show ?thesis by (simp add: accepted_max_Cons)
  next
    case True
    let ?mx = "Math_max mx (createdAtMs m)"
    from Math_max_upper [OF Cons.prems True]
    have up: "?mx \<noteq> NaN" "js_le mx ?mx" "js_le (createdAtMs m) ?mx" by simp_all
    from Cons.IH [OF up(1)]
    have ih: "accepted_max ?mx acc \<noteq> NaN" "js_le ?mx (accepted_max ?mx acc)"
      "\<forall>m\<in>set acc. Number_isFinite (createdAtMs m) \<longrightarrow> js_le (createdAtMs m) (accepted_max ?mx acc)"
      by simp_all
    from up ih True show ?thesis
      by (auto simp: accepted_max_Cons intro: js_le_trans)
  qed
qed

lemma poll_resume_cursor:
  "\<exists>acc. messages (poll_resume P cfg now peer since fetched s) = messages s @ acc \<and>
     (\<forall>p. p \<noteq> peer \<longrightarrow> peerCursors (poll_resume P cfg now peer since fetched s) p = peerCursors s p) \<and>
     (peerCursors (poll_resume P cfg now peer since fetched s) peer = peerCursors s peer \<or>
      peerCursors (poll_resume P cfg now peer since fetched s) peer = Some (accepted_max since acc) \<and>
      js_gt (accepted_max since acc) since)"
proof (cases fetched)
  case None
  then show ?thesis by (simp add: poll_resume_def)
next
  case (Some incoming)
  obtain r s1 where run: "poll_loop P cfg now incoming since s = (r, s1)"
    by (cases "poll_loop P cfg now incoming since s")
  from poll_loop_accepted [OF run] obtain acc where
    acc: "messages s1 = messages s @ acc" "peerCursors s1 = peerCursors s"
      "\<forall>mx'. r = Inr mx' \<longrightarrow> mx' = accepted_max since acc"
    by blast
  show ?thesis
  proof (cases r)
    case (Inl e)
    with Some run have "poll_resume P cfg now peer since fetched s = s1"
      by (simp add: poll_resume_def)
    with acc show ?thesis by auto
  next
    case (Inr mx')
    with acc(3) have mx': "mx' = accepted_max since acc" by simp
    from Some run Inr have
      "poll_resume P cfg now peer since fetched s =
         (if js_gt mx' since then s1\<lparr> peerCursors := (peerCursors s1)(peer \<mapsto> mx') \<rparr>
          else s1)"
      by (simp add: poll_resume_def)
    with acc mx' show ?thesis by auto
  qed
qed

lemma poll_peer_cursor:
  "\<exists>acc. messages (poll_peer P cfg now peer fetched s) = messages s @ acc \<and>
     (\<forall>p. p \<noteq> peer \<longrightarrow> peerCursors (poll_peer P cfg now peer fetched s) p = peerCursors s p) \<and>
     (peerCursors (poll_peer P cfg now peer fetched s) peer = peerCursors s peer \<or>
      peerCursors (poll_peer P cfg now peer fetched s) peer = Some (accepted_max (cursor_of s peer) acc) \<and>
      js_gt (accepted_max (cursor_of s peer) acc) (cursor_of s peer))"
  using poll_resume_cursor [of P cfg now peer "cursor_of s peer" "fetched (cursor_of s peer)" s]
  by (simp add: poll_peer_def Let_def)

lemma cursor_step_trans:
  assumes "peerCursors s1 p = peerCursors s p \<or> js_lt (cursor_of s p) (cursor_of s1 p)"
    and "peerCursors s2 p = peerCursors s1 p \<or> js_lt (cursor_of s1 p) (cursor_of s2 p)"
  shows "peerCursors s2 p = peerCursors s p \<or> js_lt (cursor_of s p) (cursor_of s2 p)"
  using assms by (auto simp: cursor_of_def intro: js_lt_trans)

lemma poll_peer_monotone:
  "peerCursors (poll_peer P cfg now peer fetched s) p = peerCursors s p \<or>
   js_lt (cursor_of s p) (cursor_of (poll_peer P cfg now peer fetched s) p)"
  using poll_peer_cursor [of P cfg now peer fetched s]
  by (cases "p = peer") (auto simp: js_gt_def cursor_of_def)

lemma fold_poll_monotone:
  "peerCursors (fold (\<lambda>peer. poll_peer P cfg now peer (fetch peer)) peers s) p = peerCursors s p \<or>
   js_lt (cursor_of s p) (cursor_of (fold (\<lambda>peer. poll_peer P cfg now peer (fetch peer)) peers s) p)"
proof (induction peers arbitrary: s)
  case Nil
  show ?case by simp
next
  case (Cons peer peers)
  let ?s1 = "poll_peer P cfg now peer (fetch peer) s"
  from cursor_step_trans [OF poll_peer_monotone [of P cfg now peer "fetch peer" s p] Cons [of ?s1]]
  show ?case by simp
qed

lemma toy_record_ts [simp]:
  "record_ts toy_platform now well_formed_record = Inr ''T1000''"
  "record_ts toy_platform now duplicate_late_record = Inr ''T1000''"
  "record_ts toy_platform now anonymous_record = Inr ''T1000''"
  "record_ts toy_platform now out_of_range_record = Inl RangeError"
  by (simp_all add: record_ts_def well_formed_record_def duplicate_late_record_def
      anonymous_record_def out_of_range_record_def MAX_TIME_VALUE_def)

lemma example_records_eligible:
  "r_hiveId well_formed_record = Some ''h1''" "r_uid well_formed_record = Some ''g1''"
  "r_hiveId duplicate_late_record = Some ''h1''" "r_uid duplicate_late_record = Some ''u''"
  "r_hiveId anonymous_record = Some ''h1''" "r_uid anonymous_record = Some ''g3''"
  "r_hiveId out_of_range_record = Some ''h1''" "r_uid out_of_range_record = Some ''g2''"
  "r_createdAtMs well_formed_record = Finite 1000"
  "r_createdAtMs duplicate_late_record = Finite 9000"
  "r_createdAtMs anonymous_record = Finite 1000"
  "HIVE_ID peered_config = ''h1''" "HIVE_ID example_config = ''h1''"
  by (simp_all add: well_formed_record_def duplicate_late_record_def anonymous_record_def
      out_of_range_record_def peered_config_def example_config_def)

lemma one_message_ids:
  "messageIds one_message_state = {''u''}" "peerCursors one_message_state = Map.empty"
  by (simp_all add: one_message_state_def empty_state_def)

text \<open>
  Iterations that do not overlap. In one iteration the cursors of the other peers are
  untouched, and the peer's cursor is either left as it is or written with a strictly
  greater value. The value written is the maximum over the finite \<open>createdAtMs\<close> of the
  messages accepted (stored) from the batch: it is the \<open>createdAtMs\<close> of an accepted message
  and bounds that of every accepted message, whatever the rejected records of the batch
  carry. Over a whole cycle of \<open>pollPeers\<close> every cursor is unchanged or has increased.
\<close>

lemma sequential_poll_cursor_monotone:
  assumes step: "s' = poll_peer P cfg now peer fetched s"
    and cycle: "s'' = pollPeers P cfg now fetch s"
  shows "(\<exists>accepted. messages s' = messages s @ accepted \<and>
            (\<forall>p. p \<noteq> peer \<longrightarrow> peerCursors s' p = peerCursors s p) \<and>
            (peerCursors s' peer = peerCursors s peer \<or>
             peerCursors s' peer = Some (cursor_of s' peer) \<and>
             js_gt (cursor_of s' peer) (cursor_of s peer) \<and>
             cursor_of s' peer = accepted_max (cursor_of s peer) accepted \<and>
             (\<exists>m\<in>set accepted. Number_isFinite (createdAtMs m) \<and> cursor_of s' peer = createdAtMs m) \<and>
             (\<forall>m\<in>set accepted. Number_isFinite (createdAtMs m)
                 \<longrightarrow> js_le (createdAtMs m) (cursor_of s' peer)))) \<and>
         (\<forall>p. peerCursors s'' p = peerCursors s p \<or> js_lt (cursor_of s p) (cursor_of s'' p))"
proof (intro conjI allI)
  from poll_peer_cursor [of P cfg now peer fetched s] obtain acc where
    acc: "messages s' = messages s @ acc"
      "\<forall>p. p \<noteq> peer \<longrightarrow> peerCursors s' p = peerCursors s p"
      "peerCursors s' peer = peerCursors s peer \<or>
       peerCursors s' peer = Some (accepted_max (cursor_of s peer) acc) \<and>
       js_gt (accepted_max (cursor_of s peer) acc) (cursor_of s peer)"
    unfolding step by blast
  have "peerCursors s' peer = Some (cursor_of s' peer) \<and>
        js_gt (cursor_of s' peer) (cursor_of s peer) \<and>
        cursor_of s' peer = accepted_max (cursor_of s peer) acc \<and>
        (\<exists>m\<in>set acc. Number_isFinite (createdAtMs m) \<and> cursor_of s' peer = createdAtMs m) \<and>
        (\<forall>m\<in>set acc. Number_isFinite (createdAtMs m) \<longrightarrow> js_le (createdAtMs m) (cursor_of s' peer))"
    if w: "peerCursors s' peer = Some (accepted_max (cursor_of s peer) acc)"
      and g: "js_gt (accepted_max (cursor_of s peer) acc) (cursor_of s peer)"
  proof -
    let ?c = "cursor_of s peer" and ?v = "accepted_max (cursor_of s peer) acc"
    have v: "cursor_of s' peer = ?v" using w by (simp add: cursor_of_def)
    from g have ne: "?c \<noteq> NaN" "?v \<noteq> ?c"
      by (auto simp: js_gt_def dest: js_lt_not_NaN) (cases ?c; auto simp: js_gt_def)
    from accepted_max_choice [of ?c acc] ne(2)
    have ch: "\<exists>m\<in>set acc. Number_isFinite (createdAtMs m) \<and> ?v = createdAtMs m" by auto
    from accepted_max_upper [OF ne(1), of acc]
    have up: "\<forall>m\<in>set acc. Number_isFinite (createdAtMs m) \<longrightarrow> js_le (createdAtMs m) ?v" by simp
    from w g ch up show ?thesis unfolding v by simp
  qed
  with acc show "\<exists>accepted. messages s' = messages s @ accepted \<and>
            (\<forall>p. p \<noteq> peer \<longrightarrow> peerCursors s' p = peerCursors s p) \<and>
            (peerCursors s' peer = peerCursors s peer \<or>
             peerCursors s' peer = Some (cursor_of s' peer) \<and>
             js_gt (cursor_of s' peer) (cursor_of s peer) \<and>
             cursor_of s' peer = accepted_max (cursor_of s peer) accepted \<and>
             (\<exists>m\<in>set accepted. Number_isFinite (createdAtMs m) \<and> cursor_of s' peer = createdAtMs m) \<and>
             (\<forall>m\<in>set accepted. Number_isFinite (createdAtMs m)
                 \<longrightarrow> js_le (createdAtMs m) (cursor_of s' peer)))"
    by blast
next
  fix p
  show "peerCursors s'' p = peerCursors s p \<or> js_lt (cursor_of s p) (cursor_of s'' p)"
    unfolding cycle pollPeers_def by (rule fold_poll_monotone)
qed

text \<open>
  A batch whose first record, created at 9000, is rejected as a duplicate and whose second,
  created at 1000, is accepted: the cursor becomes 1000, the maximum over the accepted
  records, not over the incoming ones.
\<close>

lemma cursor_ignores_rejected_record:
  "peerCursors
     (poll_peer toy_platform peered_config 5000 ''http://b''
        (\<lambda>since. Some [Some duplicate_late_record, Some well_formed_record]) one_message_state)
     ''http://b'' = Some (Finite 1000)"
  by (simp add: poll_peer_def poll_resume_def cursor_of_def example_records_eligible
      one_message_ids storeMessage_def gossip_fields_def Let_def js_gt_def)

lemma late_record_fields:
  "r_uid late_record = Some ''g9''" "r_hiveId late_record = Some ''h1''"
  "r_agentId late_record = Some ''agent-002''" "r_content late_record = Some ''hi''"
  "r_ts late_record = Some ''T9000''" "r_createdAtMs late_record = Finite 9000"
  "r_channel late_record = None"
  by (simp_all add: late_record_def)

lemma well_formed_record_fields:
  "r_ts well_formed_record = Some ''T1000''" "r_channel well_formed_record = None"
  by (simp_all add: well_formed_record_def)

text \<open>
  C7. The cursor of a peer is to be non-decreasing and never written with a value lower
  than or equal to its current value. The iteration compares the maximum of the batch with
  the \<^verbatim>\<open>sinceMs\<close> it read before it awaited the peer, not with the cursor of the moment it
  writes. Two cycles that overlap, the second started by the timer while the first still
  awaits its response, both read the cursor 0. The first resumes on a batch holding a
  record created at 9000 and writes 9000. The second resumes on a batch that holds, besides
  that record, one created at 1000 that reached the peer later: it stores it and, 1000
  being greater than the 0 it read, writes 1000 over 9000. (Iterations that do not overlap
  never lower a cursor: \<open>sequential_poll_cursor_monotone\<close>. The alarm handler of worker.ts
  awaits the cycle and only then sets the next alarm.)
\<close>

theorem overlapping_polls_lower_cursor:
  "cursor_of empty_state ''http://b'' = Finite 0 \<and>
   peerCursors
     (poll_resume toy_platform peered_config 5000 ''http://b'' (Finite 0)
        (Some [Some late_record]) empty_state) ''http://b'' = Some (Finite 9000) \<and>
   peerCursors
     (poll_resume toy_platform peered_config 6000 ''http://b'' (Finite 0)
        (Some [Some late_record, Some well_formed_record])
        (poll_resume toy_platform peered_config 5000 ''http://b'' (Finite 0)
           (Some [Some late_record]) empty_state)) ''http://b'' = Some (Finite 1000) \<and>
   js_lt (Finite 1000) (Finite 9000)"
proof -
  have first: "poll_resume toy_platform peered_config 5000 ''http://b'' (Finite 0)
        (Some [Some late_record]) empty_state
      = empty_state\<lparr> nextMessageId := 2, messageIds := {''g9''}, messages := [pulled_late],
                      peerCursors := [''http://b'' \<mapsto> Finite 9000] \<rparr>"
    by (simp add: poll_resume_def example_records_eligible late_record_fields record_ts_def
        storeMessage_def gossip_fields_def Let_def js_gt_def empty_state_def)
       (simp add: pulled_late_def stored_late_def)
  show ?thesis
    unfolding first
    by (simp add: poll_resume_def example_records_eligible late_record_fields
        well_formed_record_fields record_ts_def storeMessage_def gossip_fields_def Let_def
        js_gt_def empty_state_def cursor_of_def)
qed

lemma push_loop_accepted:
  "push_loop P cfg now incoming a k s = (r, s') \<Longrightarrow>
   \<exists>acc. messages s' = messages s @ acc \<and> messageIds s' = messageIds s \<union> uid ` set acc \<and>
         peerCursors s' = peerCursors s \<and> challenges s' = challenges s \<and> sessions s' = sessions s \<and>
         (\<forall>m\<in>set acc. present (agentId m) \<and> present (content m) \<and> hiveId m = HIVE_ID cfg \<and>
                       uid m \<noteq> [] \<and> source m = Gossip) \<and>
         (\<forall>a' k'. r = Inr (a', k') \<longrightarrow> a' = a + length acc \<and> a' + k' = a + k + length incoming)"
proof (induction P cfg now incoming a k s arbitrary: r s' rule: push_loop.induct)
  case (1 P cfg now accepted skipped s)
  then show ?case by auto
next
  case (2 P cfg now rest accepted skipped s)
  from "2.prems" have "push_loop P cfg now rest accepted (skipped + 1) s = (r, s')" by simp
  from "2.IH" [OF this] show ?case by auto
next
  case (3 P cfg now msg rest accepted skipped s)
  note run = "3.prems"
  let ?malformed = "\<not> present (r_uid msg) \<or> \<not> present (r_agentId msg) \<or>
                    \<not> present (r_hiveId msg) \<or> \<not> present (r_content msg)"
  show ?case
  proof (cases ?malformed)
    case True
    with run have "push_loop P cfg now rest accepted (skipped + 1) s = (r, s')" by simp
    from "3.IH"(1) [OF True this] show ?thesis by auto
  next
    case wf: False
    show ?thesis
    proof (cases "r_hiveId msg \<noteq> Some (HIVE_ID cfg)")
      case True
      with run wf have "push_loop P cfg now rest accepted (skipped + 1) s = (r, s')" by simp
      from "3.IH"(2) [OF wf True this] show ?thesis by auto
    next
      case hive: False
      show ?thesis
      proof (cases "record_ts P now msg")
        case (Inl e)
        with wf hive run show ?thesis by auto
      next
        case (Inr msg_ts)
        let ?input = "gossip_fields P msg (field (r_uid msg)) (field (r_hiveId msg)) msg_ts"
        obtain st s1 where st: "(st, s1) = storeMessage None ?input s"
          by (cases "storeMessage None ?input s") auto
        show ?thesis
        proof (cases st)
          case None
          with st have s1: "s1 = s" by (auto dest: storeMessage_None [OF sym])
          from run wf hive Inr st [symmetric] None
          have "push_loop P cfg now rest accepted (skipped + 1) s1 = (r, s')" by simp
          from "3.IH"(3) [OF wf hive Inr st None this] s1
          show ?thesis by auto
        next
          case (Some stored)
          from st Some have facts: "MessageFields.truncate stored = ?input"
            "messages s1 = messages s @ [stored]"
            "messageIds s1 = insert (uid ?input) (messageIds s)"
            "peerCursors s1 = peerCursors s" "challenges s1 = challenges s" "sessions s1 = sessions s"
            by (auto dest: storeMessage_Some [OF sym])
          note tf = truncate_fields [OF facts(1)]
          from run wf hive Inr st [symmetric] Some
          have run': "push_loop P cfg now rest (accepted + 1) skipped s1 = (r, s')" by simp
          from "3.IH"(4) [OF wf hive Inr st Some run']
          obtain acc where acc: "messages s' = messages s1 @ acc"
            "messageIds s' = messageIds s1 \<union> uid ` set acc"
            "peerCursors s' = peerCursors s1" "challenges s' = challenges s1" "sessions s' = sessions s1"
            "\<forall>m\<in>set acc. present (agentId m) \<and> present (content m) \<and> hiveId m = HIVE_ID cfg \<and>
                       uid m \<noteq> [] \<and> source m = Gossip"
            "\<forall>a' k'. r = Inr (a', k') \<longrightarrow>
                a' = accepted + 1 + length acc \<and> a' + k' = accepted + 1 + skipped + length rest"
            by blast
          have props: "present (agentId stored) \<and> present (content stored) \<and>
                       hiveId stored = HIVE_ID cfg \<and> uid stored \<noteq> [] \<and> source stored = Gossip"
            using wf hive tf by (cases "r_uid msg"; cases "r_hiveId msg") (auto simp: gossip_fields_def)
          have "messages s' = messages s @ (stored # acc)" using acc(1) facts(2) by simp
          moreover have "messageIds s' = messageIds s \<union> uid ` set (stored # acc)"
            using acc(2) facts(3) tf by auto
          moreover have "\<forall>m\<in>set (stored # acc). present (agentId m) \<and> present (content m) \<and>
                       hiveId m = HIVE_ID cfg \<and> uid m \<noteq> [] \<and> source m = Gossip"
            using acc(6) props by simp
          moreover have "\<forall>a' k'. r = Inr (a', k') \<longrightarrow>
                a' = accepted + length (stored # acc) \<and>
                a' + k' = accepted + skipped + length (Some msg # rest)"
            using acc(7) by auto
          ultimately show ?thesis using acc(3-5) facts(4-6) by metis
        qed
      qed
    qed
  qed
qed


lemma push_loop_returns:
  "push_loop P cfg now incoming a k s = (r, s') \<Longrightarrow>
   (\<And>msg e. Some msg \<in> set incoming \<Longrightarrow> record_ts P now msg \<noteq> Inl e) \<Longrightarrow>
   \<exists>a' k'. r = Inr (a', k')"
proof (induction P cfg now incoming a k s arbitrary: r s' rule: push_loop.induct)
  case (1 P cfg now accepted skipped s)
  then show ?case by auto
next
  case (2 P cfg now rest accepted skipped s)
  from "2.prems"(1) have "push_loop P cfg now rest accepted (skipped + 1) s = (r, s')" by simp
  from "2.IH" [OF this] "2.prems"(2) show ?case by auto
next
  case (3 P cfg now msg rest accepted skipped s)
  note run = "3.prems"(1)
  have nt: "\<And>m e. Some m \<in> set rest \<Longrightarrow> record_ts P now m \<noteq> Inl e"
    using "3.prems"(2) by auto
  obtain msg_ts where ts: "record_ts P now msg = Inr msg_ts"
    using "3.prems"(2) [of msg] by (cases "record_ts P now msg") auto
  let ?malformed = "\<not> present (r_uid msg) \<or> \<not> present (r_agentId msg) \<or>
                    \<not> present (r_hiveId msg) \<or> \<not> present (r_content msg)"
  show ?case
  proof (cases ?malformed)
    case True
    with run have "push_loop P cfg now rest accepted (skipped + 1) s = (r, s')" by simp
    from "3.IH"(1) [OF True this nt] show ?thesis by auto
  next
    case wf: False
    show ?thesis
    proof (cases "r_hiveId msg \<noteq> Some (HIVE_ID cfg)")
      case True
      with run wf have "push_loop P cfg now rest accepted (skipped + 1) s = (r, s')" by simp
      from "3.IH"(2) [OF wf True this nt] show ?thesis by auto
    next
      case hive: False
      let ?input = "gossip_fields P msg (field (r_uid msg)) (field (r_hiveId msg)) msg_ts"
      obtain st s1 where st: "(st, s1) = storeMessage None ?input s"
        by (cases "storeMessage None ?input s") auto
      show ?thesis
      proof (cases st)
        case None
        from run wf hive ts st [symmetric] None
        have "push_loop P cfg now rest accepted (skipped + 1) s1 = (r, s')" by simp
        from "3.IH"(3) [OF wf hive ts st None this nt] show ?thesis by auto
      next
        case (Some stored)
        from run wf hive ts st [symmetric] Some
        have "push_loop P cfg now rest (accepted + 1) skipped s1 = (r, s')" by simp
        from "3.IH"(4) [OF wf hive ts st Some this nt] show ?thesis by auto
      qed
    qed
  qed
qed

lemma push_counts_when_nothing_throws:
  assumes "authorizeGossip cfg header"
    and "\<And>msg e. Some msg \<in> set incoming \<Longrightarrow> record_ts P now msg \<noteq> Inl e"
  shows "\<exists>a k s'. gossip_push_handler P cfg now header (Some incoming) s = (Ok (PushCounts a k), s') \<and>
                  a + k = length incoming \<and> length (messages s') = length (messages s) + a"
proof -
  obtain r s' where run: "push_loop P cfg now incoming 0 0 s = (r, s')"
    by (cases "push_loop P cfg now incoming 0 0 s")
  from push_loop_returns [OF run assms(2)] obtain a k where r: "r = Inr (a, k)" by blast
  from push_loop_accepted [OF run] r obtain acc where
    "messages s' = messages s @ acc" "a = length acc" "a + k = length incoming"
    by auto
  with run r assms(1) show ?thesis by (simp add: gossip_push_handler_def)
qed

lemma empty_ids: "messageIds empty_state = {}" "messages empty_state = []"
  by (simp_all add: empty_state_def)

lemma example_records_fields:
  "r_agentId well_formed_record = Some ''agent-002''" "r_content well_formed_record = Some ''hi''"
  "r_agentId out_of_range_record = Some ''agent-002''" "r_content out_of_range_record = Some ''hi''"
  "r_agentId anonymous_record = None" "r_content anonymous_record = None"
  by (simp_all add: well_formed_record_def out_of_range_record_def anonymous_record_def)

lemma example_authorized: "authorizeGossip example_config None"
  by (simp add: authorizeGossip_def example_config_def)

lemma push_one_good_one_malformed:
  "fst (gossip_push_handler toy_platform example_config 5000 None
          (Some [Some well_formed_record, Some anonymous_record]) empty_state)
   = Ok (PushCounts 1 1)"
  by (simp add: gossip_push_handler_def example_authorized example_records_eligible
      example_records_fields empty_ids storeMessage_def gossip_fields_def Let_def)

text \<open>
  C9. \<^verbatim>\<open>POST /gossip/push\<close> is to answer every batch with the counts of accepted and skipped
  records. A record that has its required fields but no \<open>ts\<close>, and a \<open>createdAtMs\<close> beyond
  the last valid time value, makes \<^verbatim>\<open>new Date(createdAtMs).toISOString()\<close> throw inside the
  loop, which nothing catches: the handler ends with the exception (a 500) and reports no
  counts, after the well-formed record before it has been stored. (When no record of the
  batch throws, the counts are reported and add up: \<open>push_counts_when_nothing_throws\<close>.)
\<close>

theorem push_out_of_range_createdAtMs_throws:
  "fst (gossip_push_handler toy_platform example_config 5000 None
          (Some [Some well_formed_record, Some out_of_range_record]) empty_state)
     = Unhandled RangeError \<and>
   messageIds (snd (gossip_push_handler toy_platform example_config 5000 None
          (Some [Some well_formed_record, Some out_of_range_record]) empty_state)) = {''g1''}"
  by (simp add: gossip_push_handler_def example_authorized example_records_eligible
      example_records_fields empty_ids storeMessage_def gossip_fields_def Let_def)


lemma poll_loop_covers:
  "poll_loop P cfg now incoming mx s = (r, s') \<Longrightarrow>
   \<exists>acc. messages s' = messages s @ acc \<and>
     (\<forall>m\<in>set acc. \<exists>msg. Some msg \<in> set incoming \<and> poll_eligible cfg msg \<and>
          uid m = field (r_uid msg) \<and> agentId m = r_agentId msg \<and> content m = r_content msg) \<and>
     ((\<forall>msg e. Some msg \<in> set incoming \<and> poll_eligible cfg msg \<longrightarrow> record_ts P now msg \<noteq> Inl e)
        \<longrightarrow> (\<exists>mx'. r = Inr mx') \<and>
            (\<forall>msg. Some msg \<in> set incoming \<and> poll_eligible cfg msg
                 \<longrightarrow> field (r_uid msg) \<in> messageIds s'))"
proof (induction P cfg now incoming mx s arbitrary: r s' rule: poll_loop.induct)
  case (1 P cfg now maxSeen s)
  then show ?case by auto
next
  case (2 P cfg now rest maxSeen s)
  from "2.IH" [OF "2.prems" [simplified]] show ?case by auto
next
  case (3 P cfg now msg rest maxSeen s)
  note run = "3.prems"
  show ?case
  proof (cases "r_hiveId msg \<noteq> Some (HIVE_ID cfg) \<or> \<not> present (r_uid msg)")
    case True
    with run have "poll_loop P cfg now rest maxSeen s = (r, s')" by simp
    from "3.IH"(1) [OF True this] True show ?thesis
      by (auto simp: poll_eligible_def) blast+
  next
    case elig: False
    then have el: "poll_eligible cfg msg" by (simp add: poll_eligible_def)
    show ?thesis
    proof (cases "record_ts P now msg")
      case (Inl e)
      with elig run have "s' = s" by auto
      with Inl el show ?thesis by auto
    next
      case (Inr msg_ts)
      let ?input = "gossip_fields P msg (field (r_uid msg)) (field (r_hiveId msg)) msg_ts"
      have u: "uid ?input = field (r_uid msg)" by (simp add: gossip_fields_def)
      obtain st s1 where st: "(st, s1) = storeMessage (Some 0) ?input s"
        by (cases "storeMessage (Some 0) ?input s") auto
      show ?thesis
      proof (cases st)
        case None
        with st have s1: "s1 = s" and dup: "field (r_uid msg) \<in> messageIds s"
          using u by (auto dest: storeMessage_None [OF sym])
        from run elig Inr st [symmetric] None
        have run': "poll_loop P cfg now rest maxSeen s1 = (r, s')" by simp
        from poll_loop_accepted [OF run'] s1 dup
        have keep: "field (r_uid msg) \<in> messageIds s'" by auto
        from "3.IH"(2) [OF elig Inr st None run'] s1 keep
        show ?thesis by auto blast+
      next
        case (Some stored)
        from st Some have facts: "MessageFields.truncate stored = ?input"
          "messages s1 = messages s @ [stored]"
          "messageIds s1 = insert (uid ?input) (messageIds s)"
          by (auto dest: storeMessage_Some [OF sym])
        note tf = truncate_fields [OF facts(1)]
        let ?mx = "if Number_isFinite (createdAtMs stored)
                   then Math_max maxSeen (createdAtMs stored) else maxSeen"
        from run elig Inr st [symmetric] Some
        have run': "poll_loop P cfg now rest ?mx s1 = (r, s')" by simp
        from poll_loop_accepted [OF run'] facts(3) u
        have keep: "field (r_uid msg) \<in> messageIds s'" by auto
        have prov: "uid stored = field (r_uid msg) \<and> agentId stored = r_agentId msg \<and>
                    content stored = r_content msg"
          using tf by (simp add: gossip_fields_def)
        from "3.IH"(3) [OF elig Inr st Some run']
        obtain acc where acc: "messages s' = messages s1 @ acc"
          "\<forall>m\<in>set acc. \<exists>msg. Some msg \<in> set rest \<and> poll_eligible cfg msg \<and>
              uid m = field (r_uid msg) \<and> agentId m = r_agentId msg \<and> content m = r_content msg"
          "(\<forall>msg e. Some msg \<in> set rest \<and> poll_eligible cfg msg \<longrightarrow> record_ts P now msg \<noteq> Inl e)
             \<longrightarrow> (\<exists>mx'. r = Inr mx') \<and>
                 (\<forall>msg. Some msg \<in> set rest \<and> poll_eligible cfg msg
                      \<longrightarrow> field (r_uid msg) \<in> messageIds s')"
          by blast
        have "messages s' = messages s @ (stored # acc)" using acc(1) facts(2) by simp
        moreover have "\<forall>m\<in>set (stored # acc). \<exists>m'. Some m' \<in> set (Some msg # rest) \<and>
              poll_eligible cfg m' \<and> uid m = field (r_uid m') \<and> agentId m = r_agentId m' \<and>
              content m = r_content m'"
          using acc(2) prov el by auto
        moreover have "(\<forall>m' e. Some m' \<in> set (Some msg # rest) \<and> poll_eligible cfg m'
                            \<longrightarrow> record_ts P now m' \<noteq> Inl e)
             \<longrightarrow> (\<exists>mx'. r = Inr mx') \<and>
                 (\<forall>m'. Some m' \<in> set (Some msg # rest) \<and> poll_eligible cfg m'
                      \<longrightarrow> field (r_uid m') \<in> messageIds s')"
          using acc(3) keep by auto
        ultimately show ?thesis by blast
      qed
    qed
  qed
qed








section \<open>Runs of the server\<close>











section \<open>Convergence of two servers\<close>

lemma storeMessage_store_ok:
  assumes ok: "store_ok s" and run: "storeMessage i input s = (st, s1)"
  shows "store_ok s1"
proof (cases st)
  case None
  with ok run show ?thesis by (auto dest: storeMessage_None)
next
  case (Some m)
  from storeMessage_Some [OF run [unfolded Some]]
  have f: "uid input \<notin> messageIds s" "MessageFields.truncate m = input"
    "messages s1 = messages s @ [m]" "messageIds s1 = insert (uid input) (messageIds s)"
    by simp_all
  from truncate_fields [OF f(2)] have u: "uid m = uid input" by simp
  from ok f u show ?thesis by (auto simp: store_ok_def)
qed

lemma poll_loop_store_ok:
  "poll_loop P cfg now incoming mx s = (r, s') \<Longrightarrow> store_ok s \<Longrightarrow> store_ok s'"
proof (induction P cfg now incoming mx s arbitrary: r s' rule: poll_loop.induct)
  case (1 P cfg now maxSeen s)
  then show ?case by auto
next
  case (2 P cfg now rest maxSeen s)
  then show ?case by simp
next
  case (3 P cfg now msg rest maxSeen s)
  note run = "3.prems"(1) and ok = "3.prems"(2)
  show ?case
  proof (cases "r_hiveId msg \<noteq> Some (HIVE_ID cfg) \<or> \<not> present (r_uid msg)")
    case True
    with run have "poll_loop P cfg now rest maxSeen s = (r, s')" by simp
    from "3.IH"(1) [OF True this ok] show ?thesis .
  next
    case elig: False
    show ?thesis
    proof (cases "record_ts P now msg")
      case (Inl e)
      with elig run ok show ?thesis by auto
    next
      case (Inr msg_ts)
      let ?input = "gossip_fields P msg (field (r_uid msg)) (field (r_hiveId msg)) msg_ts"
      obtain st s1 where st: "(st, s1) = storeMessage (Some 0) ?input s"
        by (cases "storeMessage (Some 0) ?input s") auto
      have ok1: "store_ok s1" by (rule storeMessage_store_ok [OF ok st [symmetric]])
      show ?thesis
      proof (cases st)
        case None
        from run elig Inr st [symmetric] None
        have "poll_loop P cfg now rest maxSeen s1 = (r, s')" by simp
        from "3.IH"(2) [OF elig Inr st None this ok1] show ?thesis .
      next
        case (Some stored)
        let ?mx = "if Number_isFinite (createdAtMs stored)
                   then Math_max maxSeen (createdAtMs stored) else maxSeen"
        from run elig Inr st [symmetric] Some
        have "poll_loop P cfg now rest ?mx s1 = (r, s')" by simp
        from "3.IH"(3) [OF elig Inr st Some this ok1] show ?thesis .
      qed
    qed
  qed
qed


lemma fetch_from_feed:
  assumes "authorizeGossip peer_cfg (gossip_header cfg)"
  shows "fetch_from cfg peer_cfg now ps since =
           Some (map (\<lambda>m. Some (to_wire m))
                  (filter (\<lambda>m. hiveId m = HIVE_ID cfg \<and>
                               js_ge (createdAtMs m) (since_or_zero (Some since)))
                     (messages ps)))"
  using assms by (simp add: fetch_from_def gossip_messages_handler_def Let_def)

lemma to_wire_facts:
  "record_ts P now (to_wire m) = Inr (ts m)"
  "poll_eligible cfg (to_wire m) = (hiveId m = HIVE_ID cfg \<and> uid m \<noteq> [])"
  "field (r_uid (to_wire m)) = uid m"
  by (auto simp: to_wire_def record_ts_def poll_eligible_def)

lemma same_uid_same_message:
  assumes "store_ok s" "m \<in> set (messages s)" "m' \<in> set (messages s)" "uid m = uid m'"
  shows "m = m'"
  using assms by (auto simp: store_ok_def distinct_map dest: inj_onD)

lemma hive_uidsI:
  "m \<in> set (messages s) \<Longrightarrow> hiveId m = h \<Longrightarrow> uid m = u \<Longrightarrow> u \<in> hive_uids s h"
  by (auto simp: hive_uids_def)

lemma poll_from_catches_up:
  assumes hive: "HIVE_ID cfg = h"
    and auth: "authorizeGossip peer_cfg (gossip_header cfg)"
    and ok: "store_ok s"
    and behind: "cursor_behind h peer s ps"
  shows "store_ok (poll_from P cfg peer_cfg now peer s ps) \<and>
         hive_uids (poll_from P cfg peer_cfg now peer s ps) h = hive_uids s h \<union> hive_uids ps h \<and>
         (\<exists>acc. messages (poll_from P cfg peer_cfg now peer s ps) = messages s @ acc \<and>
                (\<forall>m\<in>set acc. hiveId m = h \<and> uid m \<noteq> [] \<and> uid m \<in> hive_uids ps h))"
proof -
  let ?since = "cursor_of s peer"
  let ?feed = "filter (\<lambda>m. hiveId m = HIVE_ID cfg \<and>
                          js_ge (createdAtMs m) (since_or_zero (Some ?since))) (messages ps)"
  let ?incoming = "map (\<lambda>m. Some (to_wire m)) ?feed"
  let ?s' = "poll_from P cfg peer_cfg now peer s ps"
  obtain r s1 where run: "poll_loop P cfg now ?incoming ?since s = (r, s1)"
    by (cases "poll_loop P cfg now ?incoming ?since s")
  have nt: "\<forall>msg e. Some msg \<in> set ?incoming \<and> poll_eligible cfg msg \<longrightarrow> record_ts P now msg \<noteq> Inl e"
    by (auto simp: to_wire_facts)
  from poll_loop_covers [OF run] nt obtain acc where
    acc: "messages s1 = messages s @ acc"
    and prov: "\<forall>m\<in>set acc. \<exists>msg. Some msg \<in> set ?incoming \<and> poll_eligible cfg msg \<and>
                 uid m = field (r_uid msg) \<and> agentId m = r_agentId msg \<and> content m = r_content msg"
    and ret: "\<exists>mx'. r = Inr mx'"
    and cov: "\<forall>msg. Some msg \<in> set ?incoming \<and> poll_eligible cfg msg
                 \<longrightarrow> field (r_uid msg) \<in> messageIds s1"
    by blast
  from poll_loop_accepted [OF run] obtain acc' where
    acc': "messages s1 = messages s @ acc'" "messageIds s1 = messageIds s \<union> uid ` set acc'"
      "\<forall>m\<in>set acc'. hiveId m = HIVE_ID cfg \<and> source m = Gossip \<and> uid m \<noteq> []"
    by blast
  from acc acc'(1) have same: "acc' = acc" by simp
  note ids = acc'(2) [unfolded same] and accp = acc'(3) [unfolded same]
  have ok1: "store_ok s1" by (rule poll_loop_store_ok [OF run ok])
  from ret obtain mx where r: "r = Inr mx" by blast
  have s': "?s' = (if js_gt mx ?since then s1\<lparr> peerCursors := (peerCursors s1)(peer \<mapsto> mx) \<rparr> else s1)"
    by (simp add: poll_from_def poll_peer_def poll_resume_def Let_def fetch_from_feed [OF auth] run r)
  then have msgs: "messages ?s' = messages s1" and mids: "messageIds ?s' = messageIds s1"
    by simp_all
  have A: "store_ok ?s'" using ok1 by (simp add: store_ok_def msgs mids)
  have from_peer: "hiveId m = h \<and> uid m \<noteq> [] \<and> uid m \<in> hive_uids ps h" if "m \<in> set acc" for m
  proof -
    from prov that obtain mb where mb: "mb \<in> set ?feed" "uid m = uid mb"
      by (auto simp: to_wire_facts)
    then have "mb \<in> set (messages ps)" "hiveId mb = h" using hive by auto
    then have "uid mb \<in> hive_uids ps h" by (auto simp: hive_uids_def)
    with accp that hive mb show ?thesis by auto
  qed
  have C: "\<exists>acc. messages ?s' = messages s @ acc \<and>
                (\<forall>m\<in>set acc. hiveId m = h \<and> uid m \<noteq> [] \<and> uid m \<in> hive_uids ps h)"
    using acc from_peer msgs by auto
  have sub1: "hive_uids ?s' h \<subseteq> hive_uids s h \<union> hive_uids ps h"
    using from_peer by (auto simp: hive_uids_def msgs acc)
  have sub2: "hive_uids s h \<subseteq> hive_uids ?s' h"
    by (auto simp: hive_uids_def msgs acc)
  have sub3: "hive_uids ps h \<subseteq> hive_uids ?s' h"
  proof
    fix u assume "u \<in> hive_uids ps h"
    then obtain mb where mb: "mb \<in> set (messages ps)" "hiveId mb = h" "u = uid mb"
      by (auto simp: hive_uids_def)
    show "u \<in> hive_uids ?s' h"
    proof (cases "uid mb \<in> messageIds s")
      case True
      with ok obtain ma where ma: "ma \<in> set (messages s)" "uid ma = uid mb"
        by (auto simp: store_ok_def)
      with behind mb have "hiveId ma = h" by (auto simp: cursor_behind_def)
      with ma(1) have "uid ma \<in> hive_uids s h" by (auto simp: hive_uids_def)
      with sub2 mb(3) ma(2) show ?thesis by auto
    next
      case False
      with behind mb have ge: "js_ge (createdAtMs mb) (since_or_zero (Some ?since))"
        and ne: "uid mb \<noteq> []"
        by (auto simp: cursor_behind_def)
      with mb hive have "Some (to_wire mb) \<in> set ?incoming" "poll_eligible cfg (to_wire mb)"
        by (auto simp: to_wire_facts)
      with cov have "field (r_uid (to_wire mb)) \<in> messageIds s1" by blast
      then have "uid mb \<in> messageIds s1" by (simp add: to_wire_facts)
      with False ids obtain m where m: "m \<in> set acc" "uid m = uid mb" by auto
      from m(1) have "m \<in> set (messages ?s')" by (simp add: msgs acc)
      from hive_uidsI [OF this _ m(2)] from_peer [OF m(1)] mb(3) show ?thesis by simp
    qed
  qed
  from A C sub1 sub2 sub3 show ?thesis by blast
qed


lemma cursor_behind_after_peer_polled:
  assumes okB: "store_ok B"
    and behind: "cursor_behind h peerA B A"
    and grown: "messages A1 = messages A @ acc"
      "\<forall>m\<in>set acc. hiveId m = h \<and> uid m \<noteq> [] \<and> uid m \<in> hive_uids B h"
  shows "cursor_behind h peerA B A1"
proof -
  have inB: "uid m \<in> messageIds B \<and> (\<forall>m'\<in>set (messages B). uid m = uid m' \<longrightarrow> hiveId m' = h)"
    if "m \<in> set acc" for m
  proof -
    from grown(2) that obtain mb where mb: "mb \<in> set (messages B)" "hiveId mb = h" "uid mb = uid m"
      by (auto simp: hive_uids_def)
    from mb(1) have "uid mb \<in> uid ` set (messages B)" by (rule imageI)
    then have "uid m \<in> messageIds B" using okB mb(3) by (simp add: store_ok_def)
    moreover have "hiveId m' = h" if "m' \<in> set (messages B)" "uid m = uid m'" for m'
      using same_uid_same_message [OF okB mb(1) that(1)] mb that by auto
    ultimately show ?thesis by blast
  qed
  show ?thesis
    unfolding cursor_behind_def grown(1)
  proof (intro conjI ballI impI)
    fix m assume "m \<in> set (messages A @ acc)" "hiveId m = h"
    then show "uid m \<noteq> []" using behind grown(2) by (auto simp: cursor_behind_def)
  next
    fix m assume m: "m \<in> set (messages A @ acc)" "hiveId m = h \<and> uid m \<notin> messageIds B"
    with inB have "m \<in> set (messages A)" by auto
    with m behind show "js_ge (createdAtMs m) (since_or_zero (Some (cursor_of B peerA)))"
      by (auto simp: cursor_behind_def)
  next
    fix m m' assume m: "m \<in> set (messages A @ acc)" "m' \<in> set (messages B)" "uid m = uid m'"
    show "hiveId m = hiveId m'"
    proof (cases "m \<in> set acc")
      case True
      with inB [OF True] grown(2) m show ?thesis by auto
    next
      case False
      with m behind show ?thesis by (auto simp: cursor_behind_def)
    qed
  qed
qed

lemma poll_cycle_single:
  "GOSSIP_PEERS cfg = [peer] \<Longrightarrow>
   poll_cycle P cfg peer_cfg now s ps = poll_from P cfg peer_cfg now peer s ps"
  by (simp add: poll_cycle_def pollPeers_def poll_from_def)

lemma two_polls_converge:
  assumes hive: "HIVE_ID cfgA = h" "HIVE_ID cfgB = h"
    and peers: "GOSSIP_PEERS cfgA = [peerB]" "GOSSIP_PEERS cfgB = [peerA]"
    and auth: "authorizeGossip cfgB (gossip_header cfgA)" "authorizeGossip cfgA (gossip_header cfgB)"
    and ok: "store_ok A" "store_ok B"
    and behind: "cursor_behind h peerB A B" "cursor_behind h peerA B A"
  shows "hive_uids (poll_cycle P cfgA cfgB now1 A B) h = hive_uids A h \<union> hive_uids B h \<and>
         hive_uids (poll_cycle P cfgB cfgA now2 B (poll_cycle P cfgA cfgB now1 A B)) h
           = hive_uids A h \<union> hive_uids B h"
proof -
  let ?A1 = "poll_from P cfgA cfgB now1 peerB A B"
  from poll_from_catches_up [OF hive(1) auth(1) ok(1) behind(1), of P now1]
  obtain acc where a1: "store_ok ?A1" "hive_uids ?A1 h = hive_uids A h \<union> hive_uids B h"
    "messages ?A1 = messages A @ acc"
    "\<forall>m\<in>set acc. hiveId m = h \<and> uid m \<noteq> [] \<and> uid m \<in> hive_uids B h"
    by blast
  have b: "cursor_behind h peerA B ?A1"
    by (rule cursor_behind_after_peer_polled [OF ok(2) behind(2) a1(3) a1(4)])
  from poll_from_catches_up [OF hive(2) auth(2) ok(2) b, of P now2]
  have "hive_uids (poll_from P cfgB cfgA now2 peerA B ?A1) h = hive_uids B h \<union> hive_uids ?A1 h"
    by blast
  with a1(2) show ?thesis
    by (auto simp: poll_cycle_single [OF peers(1)] poll_cycle_single [OF peers(2)])
qed























lemma two_configs:
  "HIVE_ID config_A = ''h1''" "HIVE_ID config_B = ''h1''"
  "GOSSIP_PEERS config_A = [''http://b'']" "GOSSIP_PEERS config_B = [''http://a'']"
  "gossip_header config_A = None" "gossip_header config_B = None"
  "authorizeGossip config_A None" "authorizeGossip config_B None"
  by (simp_all add: config_A_def config_B_def example_config_def gossip_header_def
      authorizeGossip_def)

lemma run_B1_eq:
  "run_B1 = empty_state\<lparr> nextMessageId := 2, messageIds := {''g9''}, messages := [stored_late] \<rparr>"
  by (simp add: run_B1_def gossip_push_handler_def two_configs late_record_fields
      empty_ids storeMessage_def gossip_fields_def Let_def record_ts_def stored_late_def)
     (simp add: empty_state_def)




lemma stored_fields:
  "hiveId stored_late = ''h1''" "createdAtMs stored_late = Finite 9000" "uid stored_late = ''g9''"
  "hiveId stored_early = ''h1''" "createdAtMs stored_early = Finite 1000" "uid stored_early = ''g1''"
  "hiveId pulled_late = ''h1''" "createdAtMs pulled_late = Finite 9000" "uid pulled_late = ''g9''"
  by (simp_all add: stored_late_def stored_early_def pulled_late_def)













lemma counterexample_history:
  "play toy_platform config_A config_B
     [At_B 9000 (Gossip_push_request None (Some [Some late_record])), Poll_A 9500, At_B 9600 (Gossip_push_request None (Some [Some well_formed_record]))]
     (empty_state, empty_state) = (run_A1, run_B2)"
  by (simp add: play_def two_configs run_B1_def [symmetric] run_A1_def [symmetric]
      run_B2_def [symmetric])

lemma counterexample_history_not_timely:
  "\<not> timely_play toy_platform config_A config_B
     [At_B 9000 (Gossip_push_request None (Some [Some late_record])), Poll_A 9500, At_B 9600 (Gossip_push_request None (Some [Some well_formed_record]))]
     (empty_state, empty_state)"
proof -
  have "\<not> timely run_B1 (Some well_formed_record)"
    by (simp add: example_records_eligible run_B1_eq stored_fields)
  then show ?thesis
    by (simp add: two_configs run_B1_def [symmetric] del: timely.simps)
qed


end
